theory Spec2Isabelle
  imports Main
begin

section \<open>Strings\<close>

text \<open>
  Python strings are modelled as \<^typ>\<open>string\<close>, restricted to ASCII: the character
  classes below are the ASCII part of Python's \<^verbatim>\<open>str.isspace\<close> and of the
  regular-expression class \<^verbatim>\<open>\w\<close>.
\<close>

definition isspace :: "char \<Rightarrow> bool" where
  "isspace c = (let n = (of_char c :: nat) in (9 \<le> n \<and> n \<le> 13) \<or> (28 \<le> n \<and> n \<le> 32))"

text \<open>\<^verbatim>\<open>str.strip()\<close> and \<^verbatim>\<open>str.strip(chars)\<close>.\<close>

definition strip_with :: "(char \<Rightarrow> bool) \<Rightarrow> string \<Rightarrow> string" where
  "strip_with P s = rev (dropWhile P (rev (dropWhile P s)))"

definition strip :: "string \<Rightarrow> string" where
  "strip s = strip_with isspace s"

definition strip_chars :: "string \<Rightarrow> string \<Rightarrow> string" where
  "strip_chars chars s = strip_with (\<lambda>c. List.member chars c) s"

text \<open>\<^verbatim>\<open>str(v)\<close> for a value that is a string or \<^verbatim>\<open>None\<close>.\<close>

fun str :: "string option \<Rightarrow> string" where
  "str None = ''None''"
| "str (Some s) = s"

text \<open>\<^verbatim>\<open>text.split()[0]\<close>: the first whitespace-delimited token; \<open>None\<close> stands for the
  \<^verbatim>\<open>IndexError\<close> of indexing an empty list of tokens.\<close>

definition split_first :: "string \<Rightarrow> string option" where
  "split_first text =
     (case dropWhile isspace text of
        [] \<Rightarrow> None
      | c # cs \<Rightarrow> Some (takeWhile (\<lambda>x. \<not> isspace x) (c # cs)))"

text \<open>\<^verbatim>\<open>s.replace('-', '_')\<close>.\<close>

definition replace_dash :: "string \<Rightarrow> string" where
  "replace_dash s = map (\<lambda>c. if c = CHR ''-'' then CHR ''_'' else c) s"

section \<open>Operation tokenizer\<close>

text \<open>The class \<^verbatim>\<open>[\w\d\-_]\<close> of the splitter: letters, digits, underscore, dash.\<close>

definition is_op_char :: "char \<Rightarrow> bool" where
  "is_op_char c =
     (let n = (of_char c :: nat) in
        (48 \<le> n \<and> n \<le> 57) \<or> (65 \<le> n \<and> n \<le> 90) \<or> (97 \<le> n \<and> n \<le> 122)
        \<or> n = 95 \<or> n = 45)"

text \<open>The class \<^verbatim>\<open>[\w\d\-_ ]\<close> allowed between single quotes.\<close>

definition is_quoted_char :: "char \<Rightarrow> bool" where
  "is_quoted_char c = (is_op_char c \<or> c = CHR '' '')"

abbreviation quote :: char where
  "quote \<equiv> CHR 0x27"

text \<open>
  A match object of
  \<^verbatim>\<open>^([\w\d\-_]+) ?('([\w\d\-_ ]+)'|([\w\d\-_]+)(?: .*)*)?\<close>
  as the code reads it: \<open>grp0\<close>, \<open>grp2\<close>, \<open>grp3\<close> are
  \<^verbatim>\<open>groups()[0]\<close>, \<^verbatim>\<open>groups()[2]\<close> and \<^verbatim>\<open>groups()[3]\<close>
  (\<^verbatim>\<open>groups()[1]\<close>, the whole optional part, is only printed by a debug message).
\<close>

record regex_match =
  grp0 :: string
  grp2 :: "string option"
  grp3 :: "string option"

text \<open>
  \<^verbatim>\<open>regex_op_splitter.match(text)\<close>. The first group is greedy and everything after it
  is optional, so the first successful match takes the longest run of operation
  characters; then \<^verbatim>\<open>' ?'\<close> takes a space when there is one; then the optional group
  is tried at that position: first the quoted alternative (a non-empty run of quoted
  characters between two single quotes), then the unquoted one (the longest non-empty
  run of operation characters, whatever follows it); when neither matches, the
  optional group is skipped and its groups are \<^verbatim>\<open>None\<close>.
\<close>

definition regex_op_splitter_match :: "string \<Rightarrow> regex_match option" where
  "regex_op_splitter_match text =
     (let g1 = takeWhile is_op_char text; r1 = dropWhile is_op_char text in
      if g1 = [] then None
      else
        let r2 = (case r1 of [] \<Rightarrow> [] | c # cs \<Rightarrow> if c = CHR '' '' then cs else c # cs) in
        (case r2 of
           [] \<Rightarrow> Some \<lparr>grp0 = g1, grp2 = None, grp3 = None\<rparr>
         | c # cs \<Rightarrow>
             if c = quote then
               (let q = takeWhile is_quoted_char cs; r3 = dropWhile is_quoted_char cs in
                if q \<noteq> [] \<and> (case r3 of [] \<Rightarrow> False | d # ds \<Rightarrow> d = quote)
                then Some \<lparr>grp0 = g1, grp2 = Some q, grp3 = None\<rparr>
                else Some \<lparr>grp0 = g1, grp2 = None, grp3 = None\<rparr>)
             else if is_op_char c then
               Some \<lparr>grp0 = g1, grp2 = None, grp3 = Some (takeWhile is_op_char (c # cs))\<rparr>
             else Some \<lparr>grp0 = g1, grp2 = None, grp3 = None\<rparr>))"

text \<open>\<^verbatim>\<open>regex_op_matcher\<close>: the match is dropped when its first group is not the first
  whitespace-delimited token of the text.\<close>

definition regex_op_matcher :: "string \<Rightarrow> regex_match option" where
  "regex_op_matcher text =
     (case regex_op_splitter_match text of
        None \<Rightarrow> None
      | Some m \<Rightarrow> if Some (grp0 m) \<noteq> split_first text then None else Some m)"

definition get_op1_from_regex_match :: "regex_match \<Rightarrow> string" where
  "get_op1_from_regex_match m = replace_dash (strip (grp0 m))"

definition get_op2_from_regex_match :: "regex_match \<Rightarrow> string option" where
  "get_op2_from_regex_match m =
     (case grp2 m of
        Some q \<Rightarrow> Some (strip q)
      | None \<Rightarrow> (case grp3 m of Some u \<Rightarrow> Some (strip u) | None \<Rightarrow> None))"

section \<open>Data model\<close>

text \<open>Exceptions are values; the argument is the message (for a failed dictionary access,
  the key).\<close>

datatype error =
  TypeError string
| ValueError string
| KeyError string
| RuntimeError string

fun is_KeyError :: "error \<Rightarrow> bool" where
  "is_KeyError (KeyError m) = True"
| "is_KeyError _ = False"

text \<open>A Python \<^verbatim>\<open>dict\<close> as an association list in insertion order with unique keys:
  assignment replaces the value of a key that is present and appends a new key.\<close>

type_synonym ('k, 'v) dict = "('k \<times> 'v) list"

definition dict_get :: "('k, 'v) dict \<Rightarrow> 'k \<Rightarrow> 'v option" where
  "dict_get d k = map_of d k"

definition dict_has :: "('k, 'v) dict \<Rightarrow> 'k \<Rightarrow> bool" where
  "dict_has d k = (map_of d k \<noteq> None)"

fun dict_set :: "('k, 'v) dict \<Rightarrow> 'k \<Rightarrow> 'v \<Rightarrow> ('k, 'v) dict" where
  "dict_set [] k v = [(k, v)]"
| "dict_set ((k', v') # d) k v = (if k' = k then (k, v) # d else (k', v') # dict_set d k v)"

text \<open>The entries of the diagnostic trace \<^verbatim>\<open>_loginfo\<close>, one constructor for each
  \<^verbatim>\<open>type\<close> the code logs.\<close>

datatype log_entry =
  Section_entry string
| Section_key_value string string
| Section_operands string "string option"
| Handler_entry string
| Handler_exit string
| Cycle_detected string string
| Section_exit string

text \<open>
  The engine as the resolver reads it and never writes it: \<open>configdata\<close> is the loaded
  \<^verbatim>\<open>configparser\<close> object (the Section Provider): for each section name the
  \<^verbatim>\<open>items()\<close> of the section in order, a value being \<^verbatim>\<open>None\<close> for a key without
  a value (\<^verbatim>\<open>allow_no_value=True\<close>).

  Modelled from the spec: the class \<^verbatim>\<open>ExceptionControl\<close> is not part of the sources
  at hand. According to the specification an event is routed through a severity-tiered
  policy: below the threshold the condition is reported and resolution continues, at
  or above it the condition is escalated to a hard failure. \<open>escalates\<close> is that policy,
  by event type.
\<close>

record engine =
  configdata :: "(string, (string \<times> string option) list) dict"
  debug_level :: nat
  escalates :: "string \<Rightarrow> bool"

definition exception_control_event ::
  "engine \<Rightarrow> string \<Rightarrow> (string \<Rightarrow> error) \<Rightarrow> string \<Rightarrow> error + unit" where
  "exception_control_event e event_type exception_type message =
     (if escalates e event_type then Inl (exception_type message) else Inr ())"

text \<open>
  What the resolver writes: the trace \<^verbatim>\<open>_loginfo\<close> of the engine (an absent attribute
  and an empty list are not told apart), and the two attributes of the lazy view
  \<^verbatim>\<open>ConfigParserEnhancedDataSection\<close>: \<^verbatim>\<open>_data\<close> and \<^verbatim>\<open>_sections_checked\<close>.
  The owner of the view is never \<^verbatim>\<open>None\<close>: the view is built by
  \<^verbatim>\<open>configdata_parsed\<close> with \<^verbatim>\<open>owner=self\<close>, and the setter refuses anything else.
\<close>

record cpe_state =
  loginfo :: "log_entry list"
  data :: "(string, (string, string) dict) dict"
  sections_checked :: "string set"

text \<open>The outcome of a call: \<open>None\<close> when the recursion budget is exhausted; otherwise
  the exception raised or the value returned, with the state the call leaves behind.\<close>

type_synonym ('a, 's) outcome = "((error + 'a) \<times> 's) option"

definition loginfo_add :: "engine \<Rightarrow> cpe_state \<Rightarrow> log_entry \<Rightarrow> cpe_state" where
  "loginfo_add e st entry =
     (if debug_level e > 0 then st\<lparr>loginfo := loginfo st @ [entry]\<rparr> else st)"

section \<open>Lazy merged view\<close>

text \<open>The methods of the view take \<open>owner\<close>, the bound method
  \<^verbatim>\<open>self.owner.parse_configuration\<close>.\<close>

type_synonym handler_data = "(string, string) dict"

type_synonym owner_parse = "cpe_state \<Rightarrow> string \<Rightarrow> (handler_data, cpe_state) outcome"

definition parse_owner_section :: "owner_parse \<Rightarrow> cpe_state \<Rightarrow> string \<Rightarrow> (unit, cpe_state) outcome" where
  "parse_owner_section owner st section =
     (case owner (st\<lparr>sections_checked := insert section (sections_checked st)\<rparr>) section of
        None \<Rightarrow> None
      | Some (Inl err, st') \<Rightarrow> Some (Inl err, st')
      | Some (Inr d, st') \<Rightarrow> Some (Inr (), st'))"

definition has_section :: "owner_parse \<Rightarrow> cpe_state \<Rightarrow> string \<Rightarrow> (bool, cpe_state) outcome" where
  "has_section owner st section =
     (if section \<notin> sections_checked st then
        (case parse_owner_section owner st section of
           None \<Rightarrow> None
         | Some (Inl err, st') \<Rightarrow>
             if is_KeyError err then Some (Inr (dict_has (data st') section), st')
             else Some (Inl err, st')
         | Some (Inr u, st') \<Rightarrow> Some (Inr (dict_has (data st') section), st'))
      else Some (Inr (dict_has (data st) section), st))"

definition has_option :: "owner_parse \<Rightarrow> cpe_state \<Rightarrow> string \<Rightarrow> string \<Rightarrow> (bool, cpe_state) outcome" where
  "has_option owner st section option =
     (case (if section \<notin> sections_checked st then parse_owner_section owner st section
            else Some (Inr (), st)) of
        None \<Rightarrow> None
      | Some (Inl err, st') \<Rightarrow> Some (Inl err, st')
      | Some (Inr u, st') \<Rightarrow>
          (case dict_get (data st') section of
             None \<Rightarrow> Some (Inl (KeyError section), st')
           | Some opts \<Rightarrow> Some (Inr (dict_has opts option), st')))"

definition get :: "owner_parse \<Rightarrow> cpe_state \<Rightarrow> string \<Rightarrow> string \<Rightarrow> (string, cpe_state) outcome" where
  "get owner st section option =
     (case (if section \<notin> sections_checked st then parse_owner_section owner st section
            else Some (Inr (), st)) of
        None \<Rightarrow> None
      | Some (Inl err, st1) \<Rightarrow> Some (Inl err, st1)
      | Some (Inr u, st1) \<Rightarrow>
          (case has_section owner st1 section of
             None \<Rightarrow> None
           | Some (Inl err, st2) \<Rightarrow> Some (Inl err, st2)
           | Some (Inr False, st2) \<Rightarrow>
               Some (Inl (KeyError (''Missing section '' @ section @ ''.'')), st2)
           | Some (Inr True, st2) \<Rightarrow>
               (case has_option owner st2 section option of
                  None \<Rightarrow> None
                | Some (Inl err, st3) \<Rightarrow> Some (Inl err, st3)
                | Some (Inr False, st3) \<Rightarrow>
                    Some (Inl (KeyError (''Missing section:option -> '' @ [quote] @ section
                            @ [quote] @ '': '' @ [quote] @ option @ [quote])), st3)
                | Some (Inr True, st3) \<Rightarrow>
                    (case dict_get (data st3) section of
                       None \<Rightarrow> Some (Inl (KeyError section), st3)
                     | Some opts \<Rightarrow>
                         (case dict_get opts option of
                            None \<Rightarrow> Some (Inl (KeyError option), st3)
                          | Some v \<Rightarrow> Some (Inr v, st3))))))"

definition add_section :: "owner_parse \<Rightarrow> cpe_state \<Rightarrow> string \<Rightarrow> (unit, cpe_state) outcome" where
  "add_section owner st section =
     (case has_section owner st section of
        None \<Rightarrow> None
      | Some (Inl err, st') \<Rightarrow> Some (Inl err, st')
      | Some (Inr True, st') \<Rightarrow> Some (Inr (), st')
      | Some (Inr False, st') \<Rightarrow> Some (Inr (), st'\<lparr>data := dict_set (data st') section []\<rparr>))"

text \<open>The method \<^verbatim>\<open>set\<close> of the view.\<close>

definition set_value ::
  "owner_parse \<Rightarrow> cpe_state \<Rightarrow> string \<Rightarrow> string \<Rightarrow> string \<Rightarrow> (string, cpe_state) outcome" where
  "set_value owner st section option val =
     (case has_section owner st section of
        None \<Rightarrow> None
      | Some (Inl err, st1) \<Rightarrow> Some (Inl err, st1)
      | Some (Inr present, st1) \<Rightarrow>
          (case (if \<not> present then add_section owner st1 section else Some (Inr (), st1)) of
             None \<Rightarrow> None
           | Some (Inl err, st2) \<Rightarrow> Some (Inl err, st2)
           | Some (Inr u, st2) \<Rightarrow>
               (case dict_get (data st2) section of
                  None \<Rightarrow> Some (Inl (KeyError section), st2)
                | Some opts \<Rightarrow>
                    if \<not> dict_has opts option then
                      Some (Inr val, st2\<lparr>data := dict_set (data st2) section (dict_set opts option val)\<rparr>)
                    else
                      (case dict_get opts option of
                         None \<Rightarrow> Some (Inl (KeyError option), st2)
                       | Some v \<Rightarrow> Some (Inr v, st2)))))"

text \<open>The method \<^verbatim>\<open>options\<close> of the view.\<close>

definition options ::
  "owner_parse \<Rightarrow> cpe_state \<Rightarrow> string \<Rightarrow> ((string, string) dict, cpe_state) outcome" where
  "options owner st section =
     (case has_section owner st section of
        None \<Rightarrow> None
      | Some (Inl err, st') \<Rightarrow> Some (Inl err, st')
      | Some (Inr False, st') \<Rightarrow>
          Some (Inl (KeyError (''Section '' @ section @ '' does not exist.'')), st')
      | Some (Inr True, st') \<Rightarrow>
          (case dict_get (data st') section of
             None \<Rightarrow> Some (Inl (KeyError section), st')
           | Some opts \<Rightarrow> Some (Inr opts, st')))"

text \<open>
  The method \<^verbatim>\<open>items\<close> of the view (\<open>items\<close> names the list of a section's items
  below, hence the prefix). Without a section it runs
  \<^verbatim>\<open>for seci in section_list: self.parse_owner_section(seci)\<close> over the keys of the
  provider, \<^verbatim>\<open>self.owner.configdata.keys()\<close>, and returns the items of the data; with
  a section it returns the items of \<^verbatim>\<open>options(section)\<close>.
\<close>

fun items_resolve_all :: "owner_parse \<Rightarrow> cpe_state \<Rightarrow> string list \<Rightarrow> (unit, cpe_state) outcome" where
  "items_resolve_all owner st [] = Some (Inr (), st)"
| "items_resolve_all owner st (seci # section_list) =
     (case parse_owner_section owner st seci of
        None \<Rightarrow> None
      | Some (Inl err, st') \<Rightarrow> Some (Inl err, st')
      | Some (Inr u, st') \<Rightarrow> items_resolve_all owner st' section_list)"

datatype items_result =
  All_items "(string, (string, string) dict) dict"
| Section_items "(string, string) dict"

definition view_items ::
  "engine \<Rightarrow> owner_parse \<Rightarrow> cpe_state \<Rightarrow> string option \<Rightarrow> (items_result, cpe_state) outcome" where
  "view_items e owner st section =
     (let section_list = map fst (configdata e) in
      case section of
        None \<Rightarrow>
          (case items_resolve_all owner st section_list of
             None \<Rightarrow> None
           | Some (Inl err, st') \<Rightarrow> Some (Inl err, st')
           | Some (Inr u, st') \<Rightarrow> Some (Inr (All_items (data st')), st'))
      | Some s \<Rightarrow>
          (case options owner st s of
             None \<Rightarrow> None
           | Some (Inl err, st') \<Rightarrow> Some (Inl err, st')
           | Some (Inr opts, st') \<Rightarrow> Some (Inr (Section_items opts), st')))"

section \<open>Recursive resolver\<close>

text \<open>
  \<open>processed_sections\<close>, the in-flight dictionary, only ever maps a name to
  \<^verbatim>\<open>True\<close>: it is modelled by the set of its keys. It is one object shared by all the
  frames of a top-level call, so the resolver threads it next to the state.
  The methods that call \<^verbatim>\<open>self._parse_configuration_r\<close> take that bound method as
  \<open>self_parse_r\<close>.
\<close>

type_synonym resolver_state = "cpe_state \<times> string set"

type_synonym parse_r =
  "string option \<Rightarrow> handler_data option \<Rightarrow> string set option \<Rightarrow> string option
     \<Rightarrow> cpe_state \<Rightarrow> (handler_data, resolver_state) outcome"

definition parser_data_init :: handler_data where
  "parser_data_init = []"

text \<open>\<^verbatim>\<open>parse_configuration\<close>, the top-level entry point (its argument is a string by its
  type here, so the \<^verbatim>\<open>isinstance\<close> check is left to the type).\<close>

definition parse_configuration_top :: "parse_r \<Rightarrow> owner_parse" where
  "parse_configuration_top self_parse_r st section =
     (if section = [] then Some (Inl (ValueError ''`section` cannot be empty.''), st)
      else
        (case self_parse_r (Some section) None None None (st\<lparr>loginfo := []\<rparr>) of
           None \<Rightarrow> None
         | Some (r, st', p) \<Rightarrow> Some (r, st')))"

text \<open>The value a handler returns: \<^verbatim>\<open>0\<close> from \<^verbatim>\<open>_handler_use\<close>, \<^verbatim>\<open>None\<close> from
  \<^verbatim>\<open>_handler_generic\<close>, which has no \<^verbatim>\<open>return\<close>.\<close>

type_synonym rval = "int option"

definition handler_generic ::
  "engine \<Rightarrow> parse_r \<Rightarrow> string \<Rightarrow> string \<Rightarrow> string \<Rightarrow> string option \<Rightarrow> handler_data
     \<Rightarrow> string \<times> string \<Rightarrow> resolver_state \<Rightarrow> (rval, resolver_state) outcome" where
  "handler_generic e self_parse_r section_root section_name op1 op2 hdata entry ctx =
     (case ctx of (st, processed_sections) \<Rightarrow>
        let st1 = loginfo_add e st (Handler_entry ''_handler_generic'') in
        (case set_value (parse_configuration_top self_parse_r) st1 section_root (fst entry) (snd entry) of
           None \<Rightarrow> None
         | Some (Inl err, st2) \<Rightarrow> Some (Inl err, st2, processed_sections)
         | Some (Inr v, st2) \<Rightarrow>
             Some (Inr None, loginfo_add e st2 (Handler_exit ''_handler_generic''),
                   processed_sections)))"

definition cycle_message :: "string \<Rightarrow> string \<Rightarrow> string" where
  "cycle_message op1 section_name =
     ''Detected a cycle in `use` dependencies in .ini file.'' @ [CHR 0x0A]
     @ ''- cannot load ['' @ op1 @ ''] from ['' @ section_name @ ''].''"

definition handler_use ::
  "engine \<Rightarrow> parse_r \<Rightarrow> string \<Rightarrow> string \<Rightarrow> string \<Rightarrow> string option \<Rightarrow> handler_data
     \<Rightarrow> string \<times> string \<Rightarrow> resolver_state \<Rightarrow> (rval, resolver_state) outcome" where
  "handler_use e self_parse_r section_root section_name op1 op2 hdata entry ctx =
     (case ctx of (st, processed_sections) \<Rightarrow>
        let st1 = loginfo_add e st (Handler_entry ''_handler_use'') in
        if (case op2 of None \<Rightarrow> True | Some target \<Rightarrow> target \<notin> processed_sections) then
          (case self_parse_r op2 (Some hdata) (Some processed_sections) (Some section_root) st1 of
             None \<Rightarrow> None
           | Some (Inl err, ctx') \<Rightarrow> Some (Inl err, ctx')
           | Some (Inr d, st2, processed_sections') \<Rightarrow>
               Some (Inr (Some 0), loginfo_add e st2 (Handler_exit ''_handler_use''),
                     processed_sections'))
        else
          (let st2 = loginfo_add e st1 (Cycle_detected section_name op1) in
           case exception_control_event e ''WARNING'' ValueError (cycle_message op1 section_name) of
             Inl err \<Rightarrow> Some (Inl err, st2, processed_sections)
           | Inr u \<Rightarrow>
               Some (Inr (Some 0), loginfo_add e st2 (Handler_exit ''_handler_use''),
                     processed_sections)))"

text \<open>\<^verbatim>\<open>getattr(self, "_handler_" + op1, None)\<close>: the class has the two methods
  \<^verbatim>\<open>_handler_use\<close> and \<^verbatim>\<open>_handler_generic\<close> whose names start with
  \<^verbatim>\<open>_handler_\<close>.\<close>

datatype handler = H_use | H_generic

definition handler_lookup :: "string \<Rightarrow> handler option" where
  "handler_lookup op1 =
     (if op1 = ''use'' then Some H_use
      else if op1 = ''generic'' then Some H_generic
      else None)"

text \<open>\<^verbatim>\<open>str(rval)\<close> in the message of a handler whose return value is not \<^verbatim>\<open>0\<close>.\<close>

fun str_nat :: "nat \<Rightarrow> string" where
  "str_nat n =
     (if n < 10 then [char_of (48 + n)] else str_nat (n div 10) @ [char_of (48 + n mod 10)])"

fun str_rval :: "rval \<Rightarrow> string" where
  "str_rval None = ''None''"
| "str_rval (Some i) = (if i < 0 then ''-'' @ str_nat (nat (- i)) else str_nat (nat i))"

text \<open>One iteration of the loop over the items of a section; \<open>None\<close> as a value is
  \<^verbatim>\<open>continue\<close> as well as the end of the body.\<close>

definition process_entry ::
  "engine \<Rightarrow> parse_r \<Rightarrow> string \<Rightarrow> string \<Rightarrow> handler_data \<Rightarrow> string \<times> string option
     \<Rightarrow> resolver_state \<Rightarrow> (unit, resolver_state) outcome" where
  "process_entry e self_parse_r section_name_root section_name hdata item ctx =
     (case ctx of (st, processed_sections) \<Rightarrow>
        let sec_k = strip (fst item);
            sec_v = strip_chars [CHR 0x22] (strip (str (snd item)));
            st1 = loginfo_add e st (Section_key_value sec_k sec_v)
        in
        (case regex_op_matcher sec_k of
           None \<Rightarrow> Some (Inr (), st1, processed_sections)
         | Some m \<Rightarrow>
             let op1 = get_op1_from_regex_match m;
                 op2 = get_op2_from_regex_match m;
                 st2 = loginfo_add e st1 (Section_operands op1 op2);
                 handler_name = ''_handler_'' @ op1
             in
             (case handler_lookup op1 of
                Some h \<Rightarrow>
                  (case (case h of
                           H_use \<Rightarrow> handler_use e self_parse_r section_name_root section_name
                                      op1 op2 hdata (sec_k, sec_v) (st2, processed_sections)
                         | H_generic \<Rightarrow> handler_generic e self_parse_r section_name_root section_name
                                      op1 op2 hdata (sec_k, sec_v) (st2, processed_sections)) of
                     None \<Rightarrow> None
                   | Some (Inl err, ctx') \<Rightarrow> Some (Inl err, ctx')
                   | Some (Inr rv, ctx') \<Rightarrow>
                       if rv \<noteq> Some 0 then
                         (case exception_control_event e ''WARNING'' RuntimeError
                                 (''Handler `'' @ handler_name @ ''` returned '' @ str_rval rv
                                  @ '' but we expected 0'') of
                            Inl err \<Rightarrow> Some (Inl err, ctx')
                          | Inr u \<Rightarrow> Some (Inr (), ctx'))
                       else Some (Inr (), ctx'))
              | None \<Rightarrow>
                  (case handler_generic e self_parse_r section_name_root section_name
                          op1 op2 hdata (sec_k, sec_v) (st2, processed_sections) of
                     None \<Rightarrow> None
                   | Some (Inl err, ctx') \<Rightarrow> Some (Inl err, ctx')
                   | Some (Inr rv, ctx') \<Rightarrow> Some (Inr (), ctx')))))"

text \<open>The loop \<^verbatim>\<open>for sec_k,sec_v in current_section.items()\<close>: an exception ends it.\<close>

fun process_items ::
  "engine \<Rightarrow> parse_r \<Rightarrow> string \<Rightarrow> string \<Rightarrow> handler_data \<Rightarrow> (string \<times> string option) list
     \<Rightarrow> resolver_state \<Rightarrow> (unit, resolver_state) outcome" where
  "process_items e self_parse_r section_name_root section_name hdata [] ctx = Some (Inr (), ctx)"
| "process_items e self_parse_r section_name_root section_name hdata (item # items) ctx =
     (case process_entry e self_parse_r section_name_root section_name hdata item ctx of
        None \<Rightarrow> None
      | Some (Inl err, ctx') \<Rightarrow> Some (Inl err, ctx')
      | Some (Inr u, ctx') \<Rightarrow>
          process_items e self_parse_r section_name_root section_name hdata items ctx')"

definition no_section_message :: "string \<Rightarrow> string" where
  "no_section_message section_name =
     ''ERROR: No section named `'' @ section_name @ ''` was found in the configuration file.''"

text \<open>
  \<^verbatim>\<open>_parse_configuration_r\<close>. The first argument is the budget of sections that may be
  in flight below this frame: entering the items of a section takes one unit, and the
  frames the handlers open run on what is left. The checks that raise before a section
  is entered take none. (\<^verbatim>\<open>configdata[section_name]\<close> never returns \<^verbatim>\<open>None\<close>, so
  the check after the lookup has no branch here.)
\<close>

fun parse_configuration_r :: "nat \<Rightarrow> engine \<Rightarrow> parse_r" where
  "parse_configuration_r fuel e section_name hdata processed_sections section_name_root st =
     (let processed0 = (case processed_sections of None \<Rightarrow> {} | Some p \<Rightarrow> p) in
      case section_name of
        None \<Rightarrow> Some (Inl (TypeError ''ERROR: a section name must not be None.''), st, processed0)
      | Some name \<Rightarrow>
          let st1 = loginfo_add e st (Section_entry name);
              root = (case section_name_root of None \<Rightarrow> name | Some r \<Rightarrow> r);
              st2 = (case section_name_root of
                       None \<Rightarrow> st1\<lparr>sections_checked := insert name (sections_checked st1)\<rparr>
                     | Some r \<Rightarrow> st1)
          in
          (case dict_get (configdata e) name of
             None \<Rightarrow> Some (Inl (KeyError (no_section_message name)), st2, processed0)
           | Some current_section \<Rightarrow>
               let hdata1 = (case hdata of None \<Rightarrow> parser_data_init | Some d \<Rightarrow> d);
                   processed1 = insert name processed0
               in
               (case fuel of
                  0 \<Rightarrow> None
                | Suc n \<Rightarrow>
                    (case process_items e (parse_configuration_r n e) root name hdata1
                            current_section (st2, processed1) of
                       None \<Rightarrow> None
                     | Some (Inl err, ctx') \<Rightarrow> Some (Inl err, ctx')
                     | Some (Inr u, st3, processed3) \<Rightarrow>
                         if name \<notin> processed3 then Some (Inl (KeyError name), st3, processed3)
                         else Some (Inr hdata1, loginfo_add e st3 (Section_exit name),
                                    processed3 - {name})))))"

definition parse_configuration :: "nat \<Rightarrow> engine \<Rightarrow> owner_parse" where
  "parse_configuration fuel e = parse_configuration_top (parse_configuration_r fuel e)"

section \<open>Example configurations\<close>

text \<open>The state of an engine on which nothing has been resolved yet.\<close>

definition initial_state :: cpe_state where
  "initial_state = \<lparr>loginfo = [], data = [], sections_checked = {}\<rparr>"

text \<open>Section \<^verbatim>\<open>A\<close> defines \<^verbatim>\<open>k = 1\<close> and then includes \<^verbatim>\<open>B\<close>, which defines
  \<^verbatim>\<open>k = 2\<close>.\<close>

definition merge_example :: engine where
  "merge_example =
     \<lparr>configdata = [(''A'', [(''k'', Some ''1''), (''use B'', None)]),
                    (''B'', [(''k'', Some ''2'')])],
      debug_level = 0, escalates = (\<lambda>t. False)\<rparr>"

text \<open>The state of that engine once \<^verbatim>\<open>A\<close> has been resolved.\<close>

definition merge_resolved :: cpe_state where
  "merge_resolved =
     \<lparr>loginfo = [], data = [(''A'', [(''k'', ''1'')])], sections_checked = {''A''}\<rparr>"

text \<open>The include graph \<^verbatim>\<open>A -use-> B -use-> A\<close>; the two engines differ in the policy
  for events: the first one continues, the second one raises.\<close>

definition cycle_config :: "(string, (string \<times> string option) list) dict" where
  "cycle_config =
     [(''A'', [(''a'', Some ''1''), (''use B'', None), (''c'', Some ''3'')]),
      (''B'', [(''b'', Some ''2''), (''use A'', None)])]"

definition cycle_example :: engine where
  "cycle_example = \<lparr>configdata = cycle_config, debug_level = 1, escalates = (\<lambda>t. False)\<rparr>"

definition cycle_example_strict :: engine where
  "cycle_example_strict = \<lparr>configdata = cycle_config, debug_level = 0, escalates = (\<lambda>t. True)\<rparr>"

text \<open>A section whose first key is a \<^verbatim>\<open>use\<close> without an operand.\<close>

definition bare_use_example :: engine where
  "bare_use_example =
     \<lparr>configdata = [(''A'', [(''use'', None), (''k'', Some ''1'')])],
      debug_level = 0, escalates = (\<lambda>t. False)\<rparr>"

text \<open>A section with a value in double quotes, as \<^verbatim>\<open>configparser\<close> returns it for
  \<^verbatim>\<open>k: "v"\<close>, and with a key without a value.\<close>

definition quoted_example :: engine where
  "quoted_example =
     \<lparr>configdata = [(''A'', [(''k'', Some [CHR 0x22, CHR ''v'', CHR 0x22]), (''flag'', None)])],
      debug_level = 0, escalates = (\<lambda>t. False)\<rparr>"

text \<open>The same engine with \<^verbatim>\<open>debug_level = 1\<close>, and the state of the view once
  \<^verbatim>\<open>A\<close> has been resolved with \<^verbatim>\<open>debug_level = 0\<close>.\<close>

definition quoted_example_traced :: engine where
  "quoted_example_traced = quoted_example\<lparr>debug_level := 1\<rparr>"

definition quoted_resolved :: cpe_state where
  "quoted_resolved =
     \<lparr>loginfo = [], data = [(''A'', [(''k'', ''v''), (''flag'', ''None'')])],
      sections_checked = {''A''}\<rparr>"

section \<open>Invariants of the resolver\<close>

text \<open>
  What a call for the root \<open>root\<close> may change: the trace, the sections marked as checked
  (which only grow) and the entry of \<open>root\<close> in the data of the view.
\<close>

definition same_elsewhere :: "string \<Rightarrow> cpe_state \<Rightarrow> cpe_state \<Rightarrow> bool" where
  "same_elsewhere root st st' \<longleftrightarrow>
     sections_checked st \<subseteq> sections_checked st'
     \<and> (\<forall>name. name \<noteq> root \<longrightarrow> dict_get (data st') name = dict_get (data st) name)"

text \<open>The same for the bound methods that are handed around: a resolution entry point,
  and a recursive frame, which also gives the in-flight sections back as it found them
  (less its own section) when it returns normally and raises at once for the section
  name \<^verbatim>\<open>None\<close>.\<close>

definition owner_sound :: "owner_parse \<Rightarrow> bool" where
  "owner_sound owner \<longleftrightarrow>
     (\<forall>st section r st'. owner st section = Some (r, st') \<longrightarrow> same_elsewhere section st st')"

definition parse_r_sound :: "parse_r \<Rightarrow> bool" where
  "parse_r_sound self_parse_r \<longleftrightarrow>
     (\<forall>section_name hdata processed_sections section_name_root st r st' p' name.
        self_parse_r section_name hdata processed_sections section_name_root st = Some (r, st', p')
        \<longrightarrow> section_name = Some name
        \<longrightarrow> same_elsewhere (case section_name_root of None \<Rightarrow> name | Some root \<Rightarrow> root) st st'
            \<and> (\<forall>d. r = Inr d \<longrightarrow>
                  p' = (case processed_sections of None \<Rightarrow> {} | Some p \<Rightarrow> p) - {name}))
     \<and> (\<forall>hdata processed_sections section_name_root st r st' p'.
        self_parse_r None hdata processed_sections section_name_root st = Some (r, st', p')
        \<longrightarrow> st' = st \<and> (\<exists>err. r = Inl err))"

section \<open>The include graph\<close>

text \<open>The section that an item includes: the operand of a key that is dispatched to
  \<^verbatim>\<open>_handler_use\<close>.\<close>

definition use_target :: "string \<times> string option \<Rightarrow> string option" where
  "use_target item =
     (case regex_op_matcher (strip (fst item)) of
        None \<Rightarrow> None
      | Some m \<Rightarrow>
          if handler_lookup (get_op1_from_regex_match m) = Some H_use
          then get_op2_from_regex_match m else None)"

text \<open>The section names reachable from a root along \<^verbatim>\<open>use\<close> edges, whether the provider
  has a section of that name or not.\<close>

inductive_set reachable :: "engine \<Rightarrow> string \<Rightarrow> string set" for e :: engine and root :: string where
  root: "root \<in> reachable e root"
| step: "s \<in> reachable e root \<Longrightarrow> dict_get (configdata e) s = Some items \<Longrightarrow> item \<in> set items
         \<Longrightarrow> use_target item = Some t \<Longrightarrow> t \<in> reachable e root"

section \<open>Tokenizer properties\<close>

lemma op_char_not_space: "is_op_char c \<Longrightarrow> \<not> isspace c"
  by (auto simp: is_op_char_def isspace_def Let_def)

lemma space_not_op_char: "\<not> is_op_char CHR '' ''"
  by (simp add: is_op_char_def)

lemma quote_not_op_char: "\<not> is_op_char quote"
  by (simp add: is_op_char_def)

lemma isspace_space: "isspace CHR '' ''"
  by (simp add: isspace_def)

lemma takeWhile_run: "list_all P xs \<Longrightarrow> \<not> P y \<Longrightarrow> takeWhile P (xs @ y # ys) = xs"
  by (induction xs) auto

lemma dropWhile_run: "list_all P xs \<Longrightarrow> \<not> P y \<Longrightarrow> dropWhile P (xs @ y # ys) = y # ys"
  by (induction xs) auto

lemma strip_with_unchanged:
  assumes "xs \<noteq> []" and "list_all (\<lambda>c. \<not> P c) xs"
  shows "strip_with P xs = xs"
proof -
  from assms obtain x xs' where xs: "xs = x # xs'" and x: "\<not> P x"
    by (cases xs) auto
  from assms have "\<not> P (last xs)"
    by (induction xs) (auto split: if_splits)
  with assms(1) have "dropWhile P (rev xs) = rev xs"
    by (cases "rev xs") (auto simp: last_rev hd_rev dest: arg_cong [where f = hd])
  with xs x show ?thesis
    by (simp add: strip_with_def)
qed

lemma strip_op_token: "xs \<noteq> [] \<Longrightarrow> list_all is_op_char xs \<Longrightarrow> strip xs = xs"
  unfolding strip_def
  by (rule strip_with_unchanged) (auto simp: list_all_iff op_char_not_space)

lemma split_first_op_token:
  assumes "xs \<noteq> []" and "list_all is_op_char xs"
  shows "split_first (xs @ CHR '' '' # rest) = Some xs"
proof -
  from assms obtain x xs' where xs: "xs = x # xs'" and x: "is_op_char x"
    by (cases xs) auto
  have "takeWhile (\<lambda>c. \<not> isspace c) (xs @ CHR '' '' # rest) = xs"
    using assms(2) by (intro takeWhile_run) (auto simp: list_all_iff op_char_not_space isspace_space)
  then show ?thesis
    using xs x by (simp add: split_first_def op_char_not_space)
qed

text \<open>
  The indexing \<^verbatim>\<open>text.split()[0]\<close> of \<^verbatim>\<open>regex_op_matcher\<close> cannot raise: a text that
  the splitter matches starts with an operation character, so it has a first token.
\<close>

lemma split_first_defined:
  "regex_op_splitter_match text = Some m \<Longrightarrow> split_first text \<noteq> None"
  by (cases "text")
    (auto simp: regex_op_splitter_match_def split_first_def Let_def op_char_not_space
          split: if_splits)

text \<open>
  Claim C9. A key made of an operation token, a space, an unquoted operand token, a
  space and any further text is tokenized to the operation with its dashes turned into
  underscores and to that operand: the text after the operand is discarded and is no
  error. The key \<^verbatim>\<open>envvar-prepend PATH extra-suffix\<close> gives
  \<^verbatim>\<open>op1 = envvar_prepend\<close> and \<^verbatim>\<open>op2 = PATH\<close>.
\<close>

theorem tokenizer_suffix_discarded:
  assumes "a \<noteq> []" and "list_all is_op_char a" and "b \<noteq> []" and "list_all is_op_char b"
  shows "map_option (\<lambda>m. (get_op1_from_regex_match m, get_op2_from_regex_match m))
           (regex_op_matcher (a @ '' '' @ b @ '' '' @ suffix))
         = Some (replace_dash a, Some b)"
proof -
  let ?text = "a @ CHR '' '' # b @ CHR '' '' # suffix"
  from assms(3,4) obtain c cs where b: "b = c # cs" and c: "is_op_char c"
    by (cases b) auto
  have g1: "takeWhile is_op_char ?text = a"
    and r1: "dropWhile is_op_char ?text = CHR '' '' # b @ CHR '' '' # suffix"
    using assms(2) by (simp_all add: takeWhile_run dropWhile_run space_not_op_char)
  have g4: "takeWhile is_op_char (b @ CHR '' '' # suffix) = b"
    using assms(4) by (simp add: takeWhile_run space_not_op_char)
  have m: "regex_op_splitter_match ?text = Some \<lparr>grp0 = a, grp2 = None, grp3 = Some b\<rparr>"
    unfolding regex_op_splitter_match_def g1 r1 Let_def
    using assms(1) c g4 quote_not_op_char by (auto simp: b)
  have "regex_op_matcher ?text = Some \<lparr>grp0 = a, grp2 = None, grp3 = Some b\<rparr>"
    using m split_first_op_token [OF assms(1,2)] by (simp add: regex_op_matcher_def)
  then show ?thesis
    using assms
    by (simp add: get_op1_from_regex_match_def get_op2_from_regex_match_def strip_op_token)
qed

theorem tokenizer_suffix_discarded_example:
  "(''envvar-prepend'' \<noteq> [] \<and> list_all is_op_char ''envvar-prepend''
      \<and> ''PATH'' \<noteq> [] \<and> list_all is_op_char ''PATH'')
   \<and> map_option (\<lambda>m. (get_op1_from_regex_match m, get_op2_from_regex_match m))
        (regex_op_matcher ''envvar-prepend PATH extra-suffix'')
      = Some (''envvar_prepend'', Some ''PATH'')"
proof -
  have h: "''envvar-prepend'' \<noteq> []" "list_all is_op_char ''envvar-prepend''"
    "''PATH'' \<noteq> []" "list_all is_op_char ''PATH''"
    by (simp_all add: is_op_char_def)
  have r: "replace_dash ''envvar-prepend'' = ''envvar_prepend''"
    by (simp add: replace_dash_def)
  show ?thesis
    using h tokenizer_suffix_discarded [OF h, of "''extra-suffix''"] by (simp add: r)
qed

text \<open>
  Claim C4, as the code has it. In the key \<^verbatim>\<open>envvar-prepend PATH 'A'\<close> the operand is
  the unquoted token \<^verbatim>\<open>PATH\<close> that follows the operation, and the quoted text after it
  is part of the discarded rest; a quoted operand is taken where it follows the
  operation directly, as in \<^verbatim>\<open>envvar-prepend 'A' PATH\<close>.
\<close>

theorem tokenizer_operand_follows_operation:
  "map_option (\<lambda>m. (get_op1_from_regex_match m, get_op2_from_regex_match m))
     (regex_op_matcher (''envvar-prepend PATH '' @ [quote] @ ''A'' @ [quote]))
   = Some (''envvar_prepend'', Some ''PATH'')
   \<and> map_option (\<lambda>m. (get_op1_from_regex_match m, get_op2_from_regex_match m))
       (regex_op_matcher (''envvar-prepend '' @ [quote] @ ''A'' @ [quote] @ '' PATH''))
     = Some (''envvar_prepend'', Some ''A'')"
  by code_simp

text \<open>Claim C4 as stated fails: the operand of \<^verbatim>\<open>envvar-prepend PATH 'A'\<close> is not
  \<^verbatim>\<open>A\<close>.\<close>

theorem tokenizer_quoted_after_token_counterexample:
  "map_option (\<lambda>m. (get_op1_from_regex_match m, get_op2_from_regex_match m))
     (regex_op_matcher (''envvar-prepend PATH '' @ [quote] @ ''A'' @ [quote]))
   \<noteq> Some (''envvar_prepend'', Some ''A'')"
  by code_simp

section \<open>Resolution on the example configurations\<close>

text \<open>
  Claim C1, evaluated on the code. Section \<^verbatim>\<open>A\<close> defines \<^verbatim>\<open>k = 1\<close> and then includes
  \<^verbatim>\<open>B\<close>, which defines \<^verbatim>\<open>k = 2\<close>: the directive applied last to \<^verbatim>\<open>k\<close> carries
  \<^verbatim>\<open>2\<close>, and the view answers \<^verbatim>\<open>1\<close>, the first value written.
\<close>

theorem merged_result_keeps_first_write:
  "get (parse_configuration 2 merge_example) initial_state ''A'' ''k''
   = Some (Inr ''1'',
           \<lparr>loginfo = [], data = [(''A'', [(''k'', ''1'')])], sections_checked = {''A''}\<rparr>)"
  by code_simp

text \<open>
  Claim C2, evaluated on the code. On the cycle \<^verbatim>\<open>A -use-> B -use-> A\<close> the condition
  raised for the edge from \<^verbatim>\<open>B\<close> to \<^verbatim>\<open>A\<close> names the operation \<^verbatim>\<open>use\<close> and the
  source \<^verbatim>\<open>B\<close>, not the destination \<^verbatim>\<open>A\<close>, in its message and in the trace entry;
  when the policy continues, the resolution returns with the entries of \<^verbatim>\<open>A\<close> and
  \<^verbatim>\<open>B\<close> stored under \<^verbatim>\<open>A\<close>.
\<close>

theorem cycle_condition_names_operation:
  "parse_configuration 2 cycle_example_strict initial_state ''A''
   = Some (Inl (ValueError (''Detected a cycle in `use` dependencies in .ini file.''
                  @ [CHR 0x0A] @ ''- cannot load [use] from [B].'')),
           \<lparr>loginfo = [], data = [(''A'', [(''a'', ''1''), (''b'', ''2'')])],
              sections_checked = {''A''}\<rparr>)
   \<and> map_option (\<lambda>r. (fst r, data (snd r), filter (\<lambda>l. l = Cycle_detected ''B'' ''use'' \<or> l = Cycle_detected ''B'' ''A'') (loginfo (snd r))))
        (parse_configuration 2 cycle_example initial_state ''A'')
     = Some (Inr [], [(''A'', [(''a'', ''1''), (''b'', ''2''), (''c'', ''3'')])],
             [Cycle_detected ''B'' ''use''])"
  by code_simp

section \<open>The view on a section that is marked as checked\<close>

lemma has_section_checked:
  "section \<in> sections_checked st \<Longrightarrow>
     has_section owner st section = Some (Inr (dict_has (data st) section), st)"
  by (simp add: has_section_def)

lemma has_option_checked:
  "section \<in> sections_checked st \<Longrightarrow>
     has_option owner st section option =
       Some (case dict_get (data st) section of
               None \<Rightarrow> Inl (KeyError section)
             | Some opts \<Rightarrow> Inr (dict_has opts option), st)"
  by (simp add: has_option_def split: option.splits)

lemma dict_has_get: "dict_has d k \<longleftrightarrow> dict_get d k \<noteq> None"
  by (simp add: dict_has_def dict_get_def)

lemma dict_get_set: "dict_get (dict_set d k v) k' = (if k' = k then Some v else dict_get d k')"
  by (induction d k v rule: dict_set.induct) (auto simp: dict_get_def)

lemma dict_get_Nil: "dict_get [] k = None"
  by (simp add: dict_get_def)

lemma dict_get_Cons: "dict_get ((k', v) # d) k = (if k = k' then Some v else dict_get d k)"
  by (simp add: dict_get_def)

lemma add_section_checked:
  "section \<in> sections_checked st \<Longrightarrow>
     add_section owner st section =
       Some (Inr (), if dict_has (data st) section then st
                     else st\<lparr>data := dict_set (data st) section []\<rparr>)"
  by (simp add: add_section_def has_section_checked)

lemma set_value_checked:
  assumes "section \<in> sections_checked st"
  shows "\<exists>v' st'. set_value owner st section option val = Some (Inr v', st')
           \<and> loginfo st' = loginfo st \<and> sections_checked st' = sections_checked st
           \<and> (\<forall>name. name \<noteq> section \<longrightarrow> dict_get (data st') name = dict_get (data st) name)
           \<and> (\<exists>opts. dict_get (data st') section = Some opts
                 \<and> dict_get opts option = Some v'
                 \<and> v' = (case dict_get (data st) section of
                            None \<Rightarrow> val
                          | Some old \<Rightarrow> (case dict_get old option of None \<Rightarrow> val | Some v \<Rightarrow> v)))"
  using assms
  by (auto simp: set_value_def has_section_checked add_section_checked dict_has_get dict_get_set
                 dict_get_Nil dict_get_Cons
           split: option.splits)

section \<open>The resolver only writes under its root\<close>

lemma same_elsewhere_refl: "same_elsewhere root st st"
  by (simp add: same_elsewhere_def)

lemma same_elsewhere_trans:
  "same_elsewhere root st st' \<Longrightarrow> same_elsewhere root st' st'' \<Longrightarrow> same_elsewhere root st st''"
  by (auto simp: same_elsewhere_def)

lemma loginfo_add_fields:
  "data (loginfo_add e st entry) = data st"
  "sections_checked (loginfo_add e st entry) = sections_checked st"
  by (simp_all add: loginfo_add_def)

lemma same_elsewhere_loginfo_add:
  "same_elsewhere root st (loginfo_add e st' entry) \<longleftrightarrow> same_elsewhere root st st'"
  "same_elsewhere root (loginfo_add e st entry) st' \<longleftrightarrow> same_elsewhere root st st'"
  by (simp_all add: same_elsewhere_def loginfo_add_fields)

lemma owner_sound_top:
  assumes "parse_r_sound self_parse_r"
  shows "owner_sound (parse_configuration_top self_parse_r)"
  unfolding owner_sound_def
proof (intro allI impI)
  fix st sec r st'
  assume a: "parse_configuration_top self_parse_r st sec = Some (r, st')"
  show "same_elsewhere sec st st'"
  proof (cases "sec = []")
    case True
    with a show ?thesis by (simp add: parse_configuration_top_def same_elsewhere_refl)
  next
    case False
    with a obtain p' where
      "self_parse_r (Some sec) None None None (st\<lparr>loginfo := []\<rparr>) = Some (r, st', p')"
      by (auto simp: parse_configuration_top_def split: option.splits prod.splits)
    with assms have "same_elsewhere sec (st\<lparr>loginfo := []\<rparr>) st'"
      unfolding parse_r_sound_def by fastforce
    then show ?thesis by (simp add: same_elsewhere_def)
  qed
qed

lemma parse_owner_section_sound:
  assumes "owner_sound owner" and "parse_owner_section owner st section = Some (r, st')"
  shows "same_elsewhere section st st' \<and> section \<in> sections_checked st'"
proof -
  let ?st0 = "st\<lparr>sections_checked := insert section (sections_checked st)\<rparr>"
  from assms(2) obtain r0 where "owner ?st0 section = Some (r0, st')"
    by (auto simp: parse_owner_section_def split: option.splits sum.splits)
  with assms(1) have "same_elsewhere section ?st0 st'"
    by (auto simp: owner_sound_def)
  then show ?thesis by (auto simp: same_elsewhere_def)
qed

lemma has_section_sound:
  assumes "owner_sound owner" and "has_section owner st section = Some (r, st')"
  shows "same_elsewhere section st st' \<and> section \<in> sections_checked st'"
proof (cases "section \<in> sections_checked st")
  case True
  with assms(2) show ?thesis by (simp add: has_section_checked same_elsewhere_refl)
next
  case False
  with assms(2) obtain r0 where "parse_owner_section owner st section = Some (r0, st')"
    by (auto simp: has_section_def split: option.splits sum.splits if_splits)
  with assms(1) show ?thesis by (rule parse_owner_section_sound)
qed

lemma set_value_sound:
  assumes "owner_sound owner" and "set_value owner st section option val = Some (r, st')"
  shows "same_elsewhere section st st'"
proof -
  from assms(2) obtain r1 st1 where
    h: "has_section owner st section = Some (r1, st1)"
    by (auto simp: set_value_def split: option.splits)
  from has_section_sound [OF assms(1) h]
  have s1: "same_elsewhere section st st1" and c1: "section \<in> sections_checked st1"
    by simp_all
  have "same_elsewhere section st1 st'"
  proof (cases r1)
    case (Inl err)
    with assms(2) h show ?thesis by (simp add: set_value_def same_elsewhere_refl)
  next
    case (Inr present)
    with assms(2) h c1 show ?thesis
      by (auto simp: set_value_def add_section_checked same_elsewhere_def dict_get_set
               split: option.splits if_splits)
  qed
  with s1 show ?thesis by (rule same_elsewhere_trans)
qed

lemma parse_r_sound_Some:
  assumes "parse_r_sound self_parse_r"
    and "self_parse_r (Some name) hdata processed_sections section_name_root st = Some (r, st', p')"
  shows "same_elsewhere (case section_name_root of None \<Rightarrow> name | Some root \<Rightarrow> root) st st'"
    and "r = Inr d \<Longrightarrow> p' = (case processed_sections of None \<Rightarrow> {} | Some p \<Rightarrow> p) - {name}"
proof -
  from assms(1) have
    "\<forall>section_name hdata processed_sections section_name_root st r st' p' name.
        self_parse_r section_name hdata processed_sections section_name_root st = Some (r, st', p')
        \<longrightarrow> section_name = Some name
        \<longrightarrow> same_elsewhere (case section_name_root of None \<Rightarrow> name | Some root \<Rightarrow> root) st st'
            \<and> (\<forall>d. r = Inr d \<longrightarrow>
                  p' = (case processed_sections of None \<Rightarrow> {} | Some p \<Rightarrow> p) - {name})"
    unfolding parse_r_sound_def by (rule conjunct1)
  from this [rule_format, OF assms(2) refl]
  show "same_elsewhere (case section_name_root of None \<Rightarrow> name | Some root \<Rightarrow> root) st st'"
    and "r = Inr d \<Longrightarrow> p' = (case processed_sections of None \<Rightarrow> {} | Some p \<Rightarrow> p) - {name}"
    by simp_all
qed

lemma parse_r_sound_None:
  assumes "parse_r_sound self_parse_r"
    and "self_parse_r None hdata processed_sections section_name_root st = Some (r, st', p')"
  shows "st' = st" and "\<exists>err. r = Inl err"
proof -
  from assms(1) have
    "\<forall>hdata processed_sections section_name_root st r st' p'.
        self_parse_r None hdata processed_sections section_name_root st = Some (r, st', p')
        \<longrightarrow> st' = st \<and> (\<exists>err. r = Inl err)"
    unfolding parse_r_sound_def by (rule conjunct2)
  from this [rule_format, OF assms(2)]
  show "st' = st" and "\<exists>err. r = Inl err" by simp_all
qed

lemma handler_generic_sound:
  assumes "parse_r_sound self_parse_r"
    and "handler_generic e self_parse_r root section_name op1 op2 hdata entry (st, p) = Some (r, st', p')"
  shows "same_elsewhere root st st' \<and> p' = p"
proof -
  let ?st1 = "loginfo_add e st (Handler_entry ''_handler_generic'')"
  from assms(2) obtain r2 st2 where
    s: "set_value (parse_configuration_top self_parse_r) ?st1 root (fst entry) (snd entry) = Some (r2, st2)"
    and st': "st' = st2 \<or> st' = loginfo_add e st2 (Handler_exit ''_handler_generic'')"
    and p': "p' = p"
    by (auto simp: handler_generic_def Let_def split: option.splits sum.splits)
  from set_value_sound [OF owner_sound_top [OF assms(1)] s]
  have "same_elsewhere root ?st1 st2" .
  with st' have "same_elsewhere root st st'"
    by (auto simp: same_elsewhere_loginfo_add)
  with p' show ?thesis by simp
qed

lemma handler_use_cycle:
  assumes "op2 = Some target" and "target \<in> p"
  shows "handler_use e self_parse_r root section_name op1 op2 hdata entry (st, p) =
           (let st2 = loginfo_add e (loginfo_add e st (Handler_entry ''_handler_use''))
                        (Cycle_detected section_name op1)
            in if escalates e ''WARNING''
               then Some (Inl (ValueError (cycle_message op1 section_name)), st2, p)
               else Some (Inr (Some 0), loginfo_add e st2 (Handler_exit ''_handler_use''), p))"
  using assms by (simp add: handler_use_def Let_def exception_control_event_def)

lemma handler_use_recurse:
  assumes "case op2 of None \<Rightarrow> True | Some target \<Rightarrow> target \<notin> p"
  shows "handler_use e self_parse_r root section_name op1 op2 hdata entry (st, p) =
           (case self_parse_r op2 (Some hdata) (Some p) (Some root)
                   (loginfo_add e st (Handler_entry ''_handler_use'')) of
              None \<Rightarrow> None
            | Some (Inl err, ctx') \<Rightarrow> Some (Inl err, ctx')
            | Some (Inr d, st2, p2) \<Rightarrow>
                Some (Inr (Some 0), loginfo_add e st2 (Handler_exit ''_handler_use''), p2))"
  using assms by (simp add: handler_use_def Let_def)

lemma handler_use_sound:
  assumes "parse_r_sound self_parse_r"
    and "handler_use e self_parse_r root section_name op1 op2 hdata entry (st, p) = Some (r, st', p')"
  shows "same_elsewhere root st st' \<and> (\<forall>rv. r = Inr rv \<longrightarrow> p' = p)"
proof (cases "case op2 of None \<Rightarrow> True | Some target \<Rightarrow> target \<notin> p")
  case False
  then obtain target where "op2 = Some target" "target \<in> p"
    by (cases op2) auto
  from assms(2) [unfolded handler_use_cycle [OF this]] show ?thesis
    by (auto simp: Let_def same_elsewhere_loginfo_add same_elsewhere_refl split: if_splits)
next
  case True
  let ?st1 = "loginfo_add e st (Handler_entry ''_handler_use'')"
  note h = assms(2) [unfolded handler_use_recurse [OF True]]
  then obtain r2 st2 p2 where
    c: "self_parse_r op2 (Some hdata) (Some p) (Some root) ?st1 = Some (r2, st2, p2)"
    by (cases "self_parse_r op2 (Some hdata) (Some p) (Some root) ?st1") auto
  from h c have st': "st' = st2 \<or> st' = loginfo_add e st2 (Handler_exit ''_handler_use'')"
    and r: "\<And>rv. r = Inr rv \<Longrightarrow> \<exists>d. r2 = Inr d \<and> p' = p2"
    by (cases r2; simp; blast)+
  show ?thesis
  proof (cases op2)
    case None
    from parse_r_sound_None [OF assms(1) c [unfolded None]]
    have "st2 = ?st1" and "\<exists>err. r2 = Inl err" by simp_all
    with st' r show ?thesis
      by (auto simp: same_elsewhere_loginfo_add same_elsewhere_refl)
  next
    case (Some target)
    with True have t: "target \<notin> p" by simp
    from parse_r_sound_Some [OF assms(1) c [unfolded Some]]
    have s: "same_elsewhere root ?st1 st2"
      and p2: "\<And>d. r2 = Inr d \<Longrightarrow> p2 = p - {target}"
      by simp_all
    from s st' have "same_elsewhere root st st'"
      by (auto simp: same_elsewhere_loginfo_add)
    moreover have "\<forall>rv. r = Inr rv \<longrightarrow> p' = p"
      using r p2 t by auto
    ultimately show ?thesis by simp
  qed
qed

lemma process_entry_sound:
  assumes "parse_r_sound self_parse_r"
    and "process_entry e self_parse_r root section_name hdata item (st, p) = Some (r, st', p')"
  shows "same_elsewhere root st st' \<and> (\<forall>u. r = Inr u \<longrightarrow> p' = p)"
proof (cases "regex_op_matcher (strip (fst item))")
  case None
  with assms(2) show ?thesis
    by (auto simp: process_entry_def Let_def same_elsewhere_loginfo_add same_elsewhere_refl)
next
  case (Some m)
  let ?op1 = "get_op1_from_regex_match m" and ?op2 = "get_op2_from_regex_match m"
  let ?sec_k = "strip (fst item)" and ?sec_v = "strip_chars [CHR 0x22] (strip (str (snd item)))"
  let ?st2 = "loginfo_add e (loginfo_add e st (Section_key_value ?sec_k ?sec_v))
                (Section_operands ?op1 ?op2)"
  show ?thesis
  proof (cases "handler_lookup ?op1")
    case None
    with Some assms(2) obtain rv where
      "handler_generic e self_parse_r root section_name ?op1 ?op2 hdata (?sec_k, ?sec_v) (?st2, p)
         = Some (rv, st', p')"
      by (auto simp: process_entry_def Let_def split: option.splits sum.splits)
    from handler_generic_sound [OF assms(1) this] show ?thesis
      by (simp add: same_elsewhere_loginfo_add)
  next
    case h: (Some h)
    show ?thesis
    proof (cases h)
      case H_use
      with h Some assms(2) obtain rv where
        c: "handler_use e self_parse_r root section_name ?op1 ?op2 hdata (?sec_k, ?sec_v) (?st2, p)
           = Some (rv, st', p')" and "\<And>u. r = Inr u \<Longrightarrow> \<exists>x. rv = Inr x"
        by (auto simp: process_entry_def Let_def split: option.splits sum.splits if_splits)
      from handler_use_sound [OF assms(1) c] this(2) show ?thesis
        by (auto simp: same_elsewhere_loginfo_add)
    next
      case H_generic
      with h Some assms(2) obtain rv where
        "handler_generic e self_parse_r root section_name ?op1 ?op2 hdata (?sec_k, ?sec_v) (?st2, p)
           = Some (rv, st', p')"
        by (auto simp: process_entry_def Let_def split: option.splits sum.splits if_splits)
      from handler_generic_sound [OF assms(1) this] show ?thesis
        by (simp add: same_elsewhere_loginfo_add)
    qed
  qed
qed

lemma process_items_sound:
  assumes "parse_r_sound self_parse_r"
  shows "process_items e self_parse_r root section_name hdata items (st, p) = Some (r, st', p')
     \<Longrightarrow> same_elsewhere root st st' \<and> (\<forall>u. r = Inr u \<longrightarrow> p' = p)"
proof (induction items arbitrary: st p)
  case Nil
  then show ?case by (simp add: same_elsewhere_refl)
next
  case (Cons item items)
  from Cons.prems obtain r1 st1 p1 where
    e1: "process_entry e self_parse_r root section_name hdata item (st, p) = Some (r1, st1, p1)"
    by (auto split: option.splits)
  from process_entry_sound [OF assms e1]
  have s1: "same_elsewhere root st st1" and p1: "\<And>u. r1 = Inr u \<Longrightarrow> p1 = p"
    by simp_all
  show ?case
  proof (cases r1)
    case (Inl err)
    with Cons.prems e1 s1 show ?thesis by auto
  next
    case (Inr u)
    with Cons.prems e1 have
      "process_items e self_parse_r root section_name hdata items (st1, p1) = Some (r, st', p')"
      by simp
    from Cons.IH [OF this] s1 p1 [OF Inr] show ?thesis
      by (auto intro: same_elsewhere_trans)
  qed
qed

lemma parse_configuration_r_sound: "parse_r_sound (parse_configuration_r fuel e)"
proof (induction fuel)
  case 0
  show ?case
    unfolding parse_r_sound_def
    by (auto simp: Let_def same_elsewhere_def loginfo_add_fields
             split: option.splits)
next
  case (Suc n)
  show ?case
    unfolding parse_r_sound_def
  proof (rule conjI; intro allI impI)
    fix section_name hdata processed_sections section_name_root st r st' p' name
    assume a: "parse_configuration_r (Suc n) e section_name hdata processed_sections
                 section_name_root st = Some (r, st', p')"
      and sn: "section_name = Some name"
    let ?root = "case section_name_root of None \<Rightarrow> name | Some root \<Rightarrow> root"
    let ?p0 = "case processed_sections of None \<Rightarrow> {} | Some p \<Rightarrow> p"
    let ?st1 = "loginfo_add e st (Section_entry name)"
    let ?st2 = "case section_name_root of
                  None \<Rightarrow> ?st1\<lparr>sections_checked := insert name (sections_checked ?st1)\<rparr>
                | Some r \<Rightarrow> ?st1"
    have st2: "same_elsewhere ?root st ?st2"
      by (auto simp: same_elsewhere_def loginfo_add_fields split: option.splits)
    show "same_elsewhere ?root st st' \<and> (\<forall>d. r = Inr d \<longrightarrow> p' = ?p0 - {name})"
    proof (cases "dict_get (configdata e) name")
      case None
      with a sn st2 show ?thesis by (auto simp: Let_def)
    next
      case (Some current_section)
      let ?hd = "case hdata of None \<Rightarrow> parser_data_init | Some d \<Rightarrow> d"
      from a sn Some obtain r3 st3 p3 where
        pi: "process_items e (parse_configuration_r n e) ?root name ?hd current_section
               (?st2, insert name ?p0) = Some (r3, st3, p3)"
        and st': "st' = st3 \<or> st' = loginfo_add e st3 (Section_exit name)"
        and r: "\<And>d. r = Inr d \<Longrightarrow> (\<exists>u. r3 = Inr u) \<and> p' = p3 - {name}"
        by (auto simp: Let_def split: option.splits sum.splits if_splits)
      from process_items_sound [OF Suc pi]
      have "same_elsewhere ?root ?st2 st3" and "\<And>u. r3 = Inr u \<Longrightarrow> p3 = insert name ?p0"
        by simp_all
      with st2 st' r show ?thesis
        by (auto simp: same_elsewhere_loginfo_add intro: same_elsewhere_trans)
    qed
  next
    fix hdata processed_sections section_name_root st r st' p'
    assume "parse_configuration_r (Suc n) e None hdata processed_sections section_name_root st
              = Some (r, st', p')"
    then show "st' = st \<and> (\<exists>err. r = Inl err)"
      by (auto simp: Let_def)
  qed
qed

lemma parse_configuration_sound: "owner_sound (parse_configuration fuel e)"
  unfolding parse_configuration_def
  by (rule owner_sound_top) (rule parse_configuration_r_sound)

section \<open>Queries on the lazy merged view\<close>

lemma get_checked:
  assumes "name \<in> sections_checked st"
  shows "get owner st name opt =
           Some (case dict_get (data st) name of
                   None \<Rightarrow> Inl (KeyError (''Missing section '' @ name @ ''.''))
                 | Some opts \<Rightarrow>
                     (case dict_get opts opt of
                        None \<Rightarrow> Inl (KeyError (''Missing section:option -> '' @ [quote] @ name
                                   @ [quote] @ '': '' @ [quote] @ opt @ [quote]))
                      | Some v \<Rightarrow> Inr v), st)"
  using assms
  by (simp add: get_def has_section_checked has_option_checked dict_has_get
           split: option.splits)

lemma parse_configuration_absent:
  assumes "name \<noteq> []" and "dict_get (configdata e) name = None"
  shows "parse_configuration fuel e st name =
           Some (Inl (KeyError (no_section_message name)),
                 (loginfo_add e (st\<lparr>loginfo := []\<rparr>) (Section_entry name))
                   \<lparr>sections_checked := insert name (sections_checked st)\<rparr>)"
  using assms
  by (simp add: parse_configuration_def parse_configuration_top_def Let_def loginfo_add_fields)

lemma parse_configuration_empty_name:
  "parse_configuration fuel e st [] = Some (Inl (ValueError ''`section` cannot be empty.''), st)"
  by (simp add: parse_configuration_def parse_configuration_top_def)

text \<open>
  Claim C8, as the code has it. For a section name that is not empty, that the Section
  Provider does not have and under which the view holds no data, \<^verbatim>\<open>has_section\<close>
  returns \<^verbatim>\<open>False\<close> and raises nothing; afterwards the name is marked as checked,
  the data of the view are what they were, and later queries answer from the view
  alone: \<^verbatim>\<open>has_section\<close> is \<^verbatim>\<open>False\<close> again and \<^verbatim>\<open>get\<close> fails with
  \<^verbatim>\<open>Missing section\<close>, whatever resolver the view is given.
\<close>

theorem has_section_absent:
  assumes "name \<noteq> []" and "dict_get (configdata e) name = None"
    and "\<not> dict_has (data st) name"
  shows "\<exists>st'. has_section (parse_configuration fuel e) st name = Some (Inr False, st')
           \<and> name \<in> sections_checked st' \<and> data st' = data st
           \<and> (\<forall>owner. has_section owner st' name = Some (Inr False, st'))
           \<and> (\<forall>owner opt. get owner st' name opt
                  = Some (Inl (KeyError (''Missing section '' @ name @ ''.'')), st'))"
proof (cases "name \<in> sections_checked st")
  case True
  with assms(3) show ?thesis
    by (simp add: has_section_checked get_checked dict_has_get)
next
  case False
  let ?st' = "(loginfo_add e (st\<lparr>loginfo := []\<rparr>) (Section_entry name))
                \<lparr>sections_checked := insert name (sections_checked st)\<rparr>"
  have d: "data ?st' = data st" and c: "name \<in> sections_checked ?st'"
    by (simp_all add: loginfo_add_fields)
  have "has_section (parse_configuration fuel e) st name = Some (Inr False, ?st')"
    using False assms(3) d
    by (simp add: has_section_def parse_owner_section_def
          parse_configuration_absent [OF assms(1,2)] loginfo_add_def)
  moreover have "\<forall>owner. has_section owner ?st' name = Some (Inr False, ?st')"
    using assms(3) d by (simp add: has_section_checked [OF c])
  moreover have "\<forall>owner opt. get owner ?st' name opt
                  = Some (Inl (KeyError (''Missing section '' @ name @ ''.'')), ?st')"
    using assms(3) d by (simp add: get_checked [OF c] dict_has_get)
  ultimately show ?thesis using c d by blast
qed

theorem has_section_absent_example:
  "(''X'' \<noteq> [] \<and> dict_get (configdata merge_example) ''X'' = None
      \<and> \<not> dict_has (data initial_state) ''X'')
   \<and> (\<exists>st'. has_section (parse_configuration 0 merge_example) initial_state ''X''
               = Some (Inr False, st')
           \<and> ''X'' \<in> sections_checked st' \<and> data st' = data initial_state
           \<and> (\<forall>owner. has_section owner st' ''X'' = Some (Inr False, st'))
           \<and> (\<forall>owner opt. get owner st' ''X'' opt
                  = Some (Inl (KeyError (''Missing section '' @ ''X'' @ ''.'')), st')))"
proof -
  have h: "''X'' \<noteq> []" "dict_get (configdata merge_example) ''X'' = None"
    "\<not> dict_has (data initial_state) ''X''"
    by (simp_all add: merge_example_def initial_state_def dict_get_def dict_has_def)
  from h has_section_absent [OF h, of 0] show ?thesis by blast
qed

text \<open>
  Claim C8 as stated fails for the empty name, which no provider has: the entry point
  raises \<^verbatim>\<open>ValueError\<close>, which \<^verbatim>\<open>has_section\<close> does not catch. It also fails for
  a name that the provider does not have once \<^verbatim>\<open>add_section\<close> has created an entry
  for it: \<^verbatim>\<open>has_section\<close> is then \<^verbatim>\<open>True\<close>.
\<close>

theorem has_section_not_false_counterexample:
  "dict_get (configdata merge_example) [] = None
   \<and> map_option fst (has_section (parse_configuration 2 merge_example) initial_state [])
       = Some (Inl (ValueError ''`section` cannot be empty.''))
   \<and> dict_get (configdata merge_example) ''X'' = None
   \<and> map_option (\<lambda>(r, st1). (r, map_option fst (has_section (parse_configuration 2 merge_example) st1 ''X'')))
        (add_section (parse_configuration 2 merge_example) initial_state ''X'')
       = Some (Inr (), Some (Inr True))"
  by code_simp

text \<open>
  Claim C10, as the code has it. \<^verbatim>\<open>has_option\<close> on a section name that is not empty,
  not yet checked and unknown to the Section Provider fails with the section-not-found
  \<^verbatim>\<open>KeyError\<close> of the resolver; on a name that is checked and has no data in the view
  it fails with the \<^verbatim>\<open>KeyError\<close> of the access \<^verbatim>\<open>self.data[section]\<close>, whatever
  resolver the view is given. It never returns \<^verbatim>\<open>False\<close> there.
\<close>

theorem has_option_missing_section:
  "(name \<noteq> [] \<and> dict_get (configdata e) name = None \<and> name \<notin> sections_checked st \<longrightarrow>
      (\<exists>st'. has_option (parse_configuration fuel e) st name opt
               = Some (Inl (KeyError (no_section_message name)), st')))
   \<and> (name \<in> sections_checked st \<and> dict_get (data st) name = None \<longrightarrow>
      (\<forall>owner. has_option owner st name opt = Some (Inl (KeyError name), st)))"
  by (simp add: has_option_checked has_option_def parse_owner_section_def
        parse_configuration_absent)

theorem has_option_missing_section_example:
  "(''X'' \<noteq> [] \<and> dict_get (configdata merge_example) ''X'' = None
      \<and> ''X'' \<notin> sections_checked initial_state)
   \<and> (\<exists>st'. has_option (parse_configuration 0 merge_example) initial_state ''X'' ''k''
               = Some (Inl (KeyError (no_section_message ''X'')), st'))
   \<and> (''X'' \<in> sections_checked (initial_state\<lparr>sections_checked := {''X''}\<rparr>)
      \<and> dict_get (data (initial_state\<lparr>sections_checked := {''X''}\<rparr>)) ''X'' = None)
   \<and> (\<forall>owner. has_option owner (initial_state\<lparr>sections_checked := {''X''}\<rparr>) ''X'' ''k''
         = Some (Inl (KeyError ''X''), initial_state\<lparr>sections_checked := {''X''}\<rparr>))"
proof -
  have h1: "''X'' \<noteq> [] \<and> dict_get (configdata merge_example) ''X'' = None
      \<and> ''X'' \<notin> sections_checked initial_state"
    by (simp add: merge_example_def initial_state_def dict_get_def)
  have h2: "''X'' \<in> sections_checked (initial_state\<lparr>sections_checked := {''X''}\<rparr>)
      \<and> dict_get (data (initial_state\<lparr>sections_checked := {''X''}\<rparr>)) ''X'' = None"
    by (simp add: initial_state_def dict_get_def)
  from h1 h2
    has_option_missing_section [of "''X''" merge_example initial_state 0 "''k''"]
    has_option_missing_section [of "''X''" merge_example
      "initial_state\<lparr>sections_checked := {''X''}\<rparr>" 0 "''k''"]
  show ?thesis by blast
qed

text \<open>
  Claim C10 as stated fails for the empty name: it is unknown to the provider and not
  checked, and what \<^verbatim>\<open>has_option\<close> propagates is the \<^verbatim>\<open>ValueError\<close> of the entry
  point, not a section-not-found failure.
\<close>

theorem has_option_empty_name_counterexample:
  "dict_get (configdata merge_example) [] = None
   \<and> [] \<notin> sections_checked initial_state
   \<and> map_option fst (has_option (parse_configuration 2 merge_example) initial_state [] ''k'')
       = Some (Inl (ValueError ''`section` cannot be empty.''))"
  by code_simp

lemma get_first_query:
  assumes "owner_sound owner" and "get owner st name opt = Some (r, st1)"
  shows "name \<in> sections_checked st1"
    and "r = Inr v \<Longrightarrow> get owner' st1 name opt = Some (Inr v, st1)"
proof -
  have "name \<in> sections_checked st1 \<and> (r = Inr v \<longrightarrow> get owner' st1 name opt = Some (Inr v, st1))"
  proof (cases "name \<in> sections_checked st")
    case True
    from assms(2) have st1: "st1 = st"
      by (simp add: get_checked [OF True])
    have "get owner' st name opt = get owner st name opt"
      by (simp add: get_checked [OF True])
    with assms(2) True st1 show ?thesis by simp
  next
    case False
    with assms(2) obtain r0 st0 where
      p: "parse_owner_section owner st name = Some (r0, st0)"
      by (auto simp: get_def split: option.splits)
    from parse_owner_section_sound [OF assms(1) p]
    have c: "name \<in> sections_checked st0" by simp
    show ?thesis
    proof (cases r0)
      case (Inl err)
      with assms(2) False p have "r = Inl err" and "st1 = st0"
        by (simp_all add: get_def)
      with c show ?thesis by simp
    next
      case (Inr u)
      have "get owner st name opt =
          Some (case dict_get (data st0) name of
                   None \<Rightarrow> Inl (KeyError (''Missing section '' @ name @ ''.''))
                 | Some opts \<Rightarrow>
                     (case dict_get opts opt of
                        None \<Rightarrow> Inl (KeyError (''Missing section:option -> '' @ [quote] @ name
                                   @ [quote] @ '': '' @ [quote] @ opt @ [quote]))
                      | Some v \<Rightarrow> Inr v), st0)"
        using False p Inr
        by (simp add: get_def has_section_checked [OF c] has_option_checked [OF c]
              dict_has_get split: option.splits)
      also have "\<dots> = get owner' st0 name opt"
        by (simp add: get_checked [OF c])
      finally have "get owner st name opt = get owner' st0 name opt" .
      with assms(2) have g: "get owner' st0 name opt = Some (r, st1)"
        by simp
      then have "st1 = st0"
        by (simp add: get_checked [OF c])
      with g c show ?thesis by simp
    qed
  qed
  then show "name \<in> sections_checked st1"
    and "r = Inr v \<Longrightarrow> get owner' st1 name opt = Some (Inr v, st1)"
    by simp_all
qed

text \<open>
  The guarded queries. Let a first \<^verbatim>\<open>has_section\<close> or \<^verbatim>\<open>get\<close> on a section name
  return, with or without an exception, and leave the state \<open>st1\<close>. Then a second
  \<^verbatim>\<open>has_section\<close> or \<^verbatim>\<open>get\<close> on that name is a lookup in the view: for every
  resolver handed to the view (one that never returns included) and every provider
  behind it, it returns at once, leaves \<open>st1\<close> as it is (data, checked sections and
  trace: no section is walked, no handler runs), and answers what the first query
  answered when that one returned a value.
\<close>

lemma second_query_is_cache_lookup:
  assumes "has_section (parse_configuration fuel e) st name = Some (b, st1)
           \<or> get (parse_configuration fuel e) st name opt = Some (r, st1)"
  shows "(\<forall>owner. has_section owner st1 name = Some (Inr (dict_has (data st1) name), st1))
       \<and> (\<exists>r'. \<forall>owner. get owner st1 name opt' = Some (r', st1))
       \<and> (\<forall>v owner. get (parse_configuration fuel e) st name opt = Some (Inr v, st1)
             \<longrightarrow> get owner st1 name opt = Some (Inr v, st1))
       \<and> (\<forall>v owner. has_section (parse_configuration fuel e) st name = Some (Inr v, st1)
             \<longrightarrow> has_section owner st1 name = Some (Inr v, st1))"
proof -
  note s = parse_configuration_sound [of fuel e]
  from assms have c: "name \<in> sections_checked st1"
    using has_section_sound [OF s] get_first_query(1) [OF s] by blast
  have "get owner st1 name opt = Some (Inr v, st1)"
    if "get (parse_configuration fuel e) st name opt = Some (Inr v, st1)" for v owner
    using get_first_query(2) [OF s that] by simp
  moreover have "has_section owner st1 name = Some (Inr v, st1)"
    if h: "has_section (parse_configuration fuel e) st name = Some (Inr v, st1)" for v owner
  proof -
    from h have "v = dict_has (data st1) name"
      by (auto simp: has_section_def split: if_splits option.splits sum.splits)
    then show ?thesis by (simp add: has_section_checked [OF c])
  qed
  ultimately show ?thesis
    by (simp add: has_section_checked [OF c] get_checked [OF c])
qed

lemma second_query_is_cache_lookup_example:
  "(has_section (parse_configuration 2 merge_example) initial_state ''A''
      = Some (Inr True, merge_resolved)
    \<or> get (parse_configuration 2 merge_example) initial_state ''A'' ''k''
      = Some (Inr ''1'', merge_resolved))
   \<and> (\<forall>owner. has_section owner merge_resolved ''A''
         = Some (Inr (dict_has (data merge_resolved) ''A''), merge_resolved))
   \<and> (\<exists>r'. \<forall>owner. get owner merge_resolved ''A'' ''j'' = Some (r', merge_resolved))
   \<and> get (parse_configuration 2 merge_example) initial_state ''A'' ''k''
       = Some (Inr ''1'', merge_resolved)
   \<and> (\<forall>owner. get owner merge_resolved ''A'' ''k'' = Some (Inr ''1'', merge_resolved))
   \<and> has_section (parse_configuration 2 merge_example) initial_state ''A''
       = Some (Inr True, merge_resolved)
   \<and> (\<forall>owner. has_section owner merge_resolved ''A'' = Some (Inr True, merge_resolved))"
proof -
  have g: "get (parse_configuration 2 merge_example) initial_state ''A'' ''k''
             = Some (Inr ''1'', merge_resolved)"
    by code_simp
  have h: "has_section (parse_configuration 2 merge_example) initial_state ''A''
             = Some (Inr True, merge_resolved)"
    by code_simp
  from g h
    second_query_is_cache_lookup
      [of 2 merge_example initial_state "''A''" "Inr True" merge_resolved "''k''" "Inr ''1''" "''j''"]
  show ?thesis by blast
qed

text \<open>
  Claim C3, evaluated on the code. Once \<^verbatim>\<open>get\<close> has resolved the section \<^verbatim>\<open>A\<close>, a
  second \<^verbatim>\<open>get\<close> is a lookup: it answers even with a resolver that never returns.
  The whole-view \<^verbatim>\<open>items()\<close> is not: it calls \<^verbatim>\<open>parse_owner_section\<close> for every
  section of the provider without looking at the checked sections, so \<^verbatim>\<open>A\<close> is
  resolved a second time. With a resolver that never returns it does not return, and
  with the resolver of the engine the trace shows the section walked and the generic
  handler run again, for the same data.
\<close>

theorem items_resolves_checked_section_again:
  "get (parse_configuration 1 quoted_example) initial_state ''A'' ''k''
     = Some (Inr ''v'', quoted_resolved)
   \<and> get (\<lambda>st s. None) quoted_resolved ''A'' ''k'' = Some (Inr ''v'', quoted_resolved)
   \<and> view_items quoted_example (\<lambda>st s. None) quoted_resolved None = None
   \<and> view_items quoted_example_traced (parse_configuration 1 quoted_example_traced)
         quoted_resolved None
     = Some (Inr (All_items [(''A'', [(''k'', ''v''), (''flag'', ''None'')])]),
             quoted_resolved
               \<lparr>loginfo :=
                  [Section_entry ''A'', Section_key_value ''k'' ''v'',
                   Section_operands ''k'' None, Handler_entry ''_handler_generic'',
                   Handler_exit ''_handler_generic'',
                   Section_key_value ''flag'' ''None'', Section_operands ''flag'' None,
                   Handler_entry ''_handler_generic'',
                   Handler_exit ''_handler_generic'', Section_exit ''A'']\<rparr>)"
  by code_simp

section \<open>Dispatch of one entry\<close>

lemma handler_generic_checked:
  assumes "root \<in> sections_checked st"
  shows "\<exists>v' st'. handler_generic e self_parse_r root section_name op1 op2 hdata (k, v) (st, p)
             = Some (Inr None, st', p)
           \<and> sections_checked st' = sections_checked st
           \<and> (\<forall>name. name \<noteq> root \<longrightarrow> dict_get (data st') name = dict_get (data st) name)
           \<and> (\<exists>opts. dict_get (data st') root = Some opts
                 \<and> dict_get opts k = Some v'
                 \<and> v' = (case dict_get (data st) root of
                            None \<Rightarrow> v
                          | Some old \<Rightarrow> (case dict_get old k of None \<Rightarrow> v | Some x \<Rightarrow> x)))"
proof -
  let ?st1 = "loginfo_add e st (Handler_entry ''_handler_generic'')"
  from assms have "root \<in> sections_checked ?st1"
    by (simp add: loginfo_add_fields)
  from set_value_checked [OF this, of "parse_configuration_top self_parse_r" k v]
  obtain v' st2 where
    s: "set_value (parse_configuration_top self_parse_r) ?st1 root k v = Some (Inr v', st2)"
    and c: "sections_checked st2 = sections_checked ?st1"
    and o: "\<forall>name. name \<noteq> root \<longrightarrow> dict_get (data st2) name = dict_get (data ?st1) name"
    and d: "\<exists>opts. dict_get (data st2) root = Some opts \<and> dict_get opts k = Some v'
              \<and> v' = (case dict_get (data ?st1) root of
                            None \<Rightarrow> v
                          | Some old \<Rightarrow> (case dict_get old k of None \<Rightarrow> v | Some x \<Rightarrow> x))"
    by blast
  let ?st' = "loginfo_add e st2 (Handler_exit ''_handler_generic'')"
  have "handler_generic e self_parse_r root section_name op1 op2 hdata (k, v) (st, p)
          = Some (Inr None, ?st', p)"
    using s by (simp add: handler_generic_def Let_def)
  with c o d show ?thesis
    by (auto simp: loginfo_add_fields)
qed

lemma process_entry_generic:
  assumes "regex_op_matcher (strip k) = Some m"
    and "handler_lookup (get_op1_from_regex_match m) = None"
    and "root \<in> sections_checked st"
  shows "\<exists>v' st'. process_entry e self_parse_r root section_name hdata (k, v) (st, p)
             = Some (Inr (), st', p)
           \<and> sections_checked st' = sections_checked st
           \<and> (\<forall>name. name \<noteq> root \<longrightarrow> dict_get (data st') name = dict_get (data st) name)
           \<and> (\<exists>opts. dict_get (data st') root = Some opts
                 \<and> dict_get opts (strip k) = Some v'
                 \<and> v' = (case dict_get (data st) root of
                            None \<Rightarrow> strip_chars [CHR 0x22] (strip (str v))
                          | Some old \<Rightarrow>
                              (case dict_get old (strip k) of
                                 None \<Rightarrow> strip_chars [CHR 0x22] (strip (str v))
                               | Some x \<Rightarrow> x)))"
proof -
  let ?sec_k = "strip k" and ?sec_v = "strip_chars [CHR 0x22] (strip (str v))"
  let ?op1 = "get_op1_from_regex_match m" and ?op2 = "get_op2_from_regex_match m"
  let ?st2 = "loginfo_add e (loginfo_add e st (Section_key_value ?sec_k ?sec_v))
                (Section_operands ?op1 ?op2)"
  from assms(3) have "root \<in> sections_checked ?st2"
    by (simp add: loginfo_add_fields)
  from handler_generic_checked [OF this, of e self_parse_r section_name ?op1 ?op2 hdata ?sec_k ?sec_v p]
  obtain v' st' where
    h: "handler_generic e self_parse_r root section_name ?op1 ?op2 hdata (?sec_k, ?sec_v) (?st2, p)
             = Some (Inr None, st', p)"
    and r: "sections_checked st' = sections_checked ?st2"
      "\<forall>name. name \<noteq> root \<longrightarrow> dict_get (data st') name = dict_get (data ?st2) name"
      "\<exists>opts. dict_get (data st') root = Some opts
                 \<and> dict_get opts ?sec_k = Some v'
                 \<and> v' = (case dict_get (data ?st2) root of
                            None \<Rightarrow> ?sec_v
                          | Some old \<Rightarrow> (case dict_get old ?sec_k of None \<Rightarrow> ?sec_v | Some x \<Rightarrow> x))"
    by blast
  have "process_entry e self_parse_r root section_name hdata (k, v) (st, p) = Some (Inr (), st', p)"
    using assms(1,2) h by (simp add: process_entry_def Let_def)
  with r show ?thesis
    by (auto simp: loginfo_add_fields)
qed

lemma process_entry_bare_use:
  assumes "regex_op_matcher (strip k) = Some m"
    and "handler_lookup (get_op1_from_regex_match m) = Some H_use"
    and "get_op2_from_regex_match m = None"
  shows "\<exists>st'. process_entry e (parse_configuration_r n e) root section_name hdata (k, v) (st, p)
           = Some (Inl (TypeError ''ERROR: a section name must not be None.''), st', p)"
  using assms
  by (simp add: process_entry_def handler_use_def Let_def)

text \<open>
  A key without an operand. Take a key whose tokenization has no operand, in a
  frame whose root is marked as checked. When the operation has no handler of its own,
  the generic handler takes the entry: the iteration completes without an exception and
  the loop goes on with the next item. When the operation is \<^verbatim>\<open>use\<close>, the handler
  calls the resolver with the section name \<^verbatim>\<open>None\<close>, the resolver raises
  \<^verbatim>\<open>TypeError\<close>, and the loop ends there with that exception.
\<close>

lemma absent_operand_dispatch:
  assumes "regex_op_matcher (strip k) = Some m"
    and "get_op2_from_regex_match m = None"
    and "root \<in> sections_checked st"
  shows "(handler_lookup (get_op1_from_regex_match m) = None \<longrightarrow>
           (\<exists>st'. process_entry e self_parse_r root section_name hdata (k, v) (st, p)
                     = Some (Inr (), st', p)
                 \<and> process_items e self_parse_r root section_name hdata ((k, v) # items) (st, p)
                     = process_items e self_parse_r root section_name hdata items (st', p)))
       \<and> (handler_lookup (get_op1_from_regex_match m) = Some H_use \<longrightarrow>
           (\<exists>st'. process_items e (parse_configuration_r n e) root section_name hdata
                     ((k, v) # items) (st, p)
                   = Some (Inl (TypeError ''ERROR: a section name must not be None.''), st', p)))"
proof (intro conjI impI)
  assume "handler_lookup (get_op1_from_regex_match m) = None"
  from process_entry_generic [OF assms(1) this assms(3)]
  obtain st' where "process_entry e self_parse_r root section_name hdata (k, v) (st, p)
                     = Some (Inr (), st', p)"
    by blast
  then show "\<exists>st'. process_entry e self_parse_r root section_name hdata (k, v) (st, p)
                     = Some (Inr (), st', p)
                 \<and> process_items e self_parse_r root section_name hdata ((k, v) # items) (st, p)
                     = process_items e self_parse_r root section_name hdata items (st', p)"
    by simp
next
  assume "handler_lookup (get_op1_from_regex_match m) = Some H_use"
  from process_entry_bare_use [OF assms(1) this assms(2)]
  obtain st' where "process_entry e (parse_configuration_r n e) root section_name hdata (k, v) (st, p)
           = Some (Inl (TypeError ''ERROR: a section name must not be None.''), st', p)"
    by blast
  then show "\<exists>st'. process_items e (parse_configuration_r n e) root section_name hdata
                     ((k, v) # items) (st, p)
                   = Some (Inl (TypeError ''ERROR: a section name must not be None.''), st', p)"
    by simp
qed

lemma absent_operand_dispatch_example:
  "(regex_op_matcher (strip ''k'') = Some \<lparr>grp0 = ''k'', grp2 = None, grp3 = None\<rparr>
      \<and> get_op2_from_regex_match \<lparr>grp0 = ''k'', grp2 = None, grp3 = None\<rparr> = None
      \<and> ''A'' \<in> sections_checked (initial_state\<lparr>sections_checked := {''A''}\<rparr>)
      \<and> handler_lookup (get_op1_from_regex_match \<lparr>grp0 = ''k'', grp2 = None, grp3 = None\<rparr>)
          = None)
   \<and> (\<exists>st'. process_entry bare_use_example (parse_configuration_r 1 bare_use_example)
                  ''A'' ''A'' [] (''k'', Some ''1'')
                  (initial_state\<lparr>sections_checked := {''A''}\<rparr>, {''A''})
                = Some (Inr (), st', {''A''})
            \<and> process_items bare_use_example (parse_configuration_r 1 bare_use_example)
                  ''A'' ''A'' [] [(''k'', Some ''1''), (''j'', Some ''2'')]
                  (initial_state\<lparr>sections_checked := {''A''}\<rparr>, {''A''})
                = process_items bare_use_example (parse_configuration_r 1 bare_use_example)
                  ''A'' ''A'' [] [(''j'', Some ''2'')] (st', {''A''}))
   \<and> (regex_op_matcher (strip ''use'') = Some \<lparr>grp0 = ''use'', grp2 = None, grp3 = None\<rparr>
      \<and> get_op2_from_regex_match \<lparr>grp0 = ''use'', grp2 = None, grp3 = None\<rparr> = None
      \<and> handler_lookup (get_op1_from_regex_match \<lparr>grp0 = ''use'', grp2 = None, grp3 = None\<rparr>)
          = Some H_use)
   \<and> (\<exists>st'. process_items bare_use_example (parse_configuration_r 1 bare_use_example)
                  ''A'' ''A'' [] [(''use'', None), (''k'', Some ''1'')]
                  (initial_state\<lparr>sections_checked := {''A''}\<rparr>, {''A''})
                = Some (Inl (TypeError ''ERROR: a section name must not be None.''), st', {''A''}))"
proof -
  let ?mk = "\<lparr>grp0 = ''k'', grp2 = None, grp3 = None\<rparr>"
  let ?mu = "\<lparr>grp0 = ''use'', grp2 = None, grp3 = None\<rparr>"
  let ?st = "initial_state\<lparr>sections_checked := {''A''}\<rparr>"
  have k: "regex_op_matcher (strip ''k'') = Some ?mk"
    and u: "regex_op_matcher (strip ''use'') = Some ?mu"
    by code_simp+
  have o: "get_op2_from_regex_match ?mk = None" "get_op2_from_regex_match ?mu = None"
    by (simp_all add: get_op2_from_regex_match_def)
  have c: "''A'' \<in> sections_checked ?st"
    by simp
  have l: "handler_lookup (get_op1_from_regex_match ?mk) = None"
    "handler_lookup (get_op1_from_regex_match ?mu) = Some H_use"
    by code_simp+
  from k u o c l
    absent_operand_dispatch [OF k o(1) c, of bare_use_example
      "parse_configuration_r 1 bare_use_example" "''A''" "[]" "Some ''1''" "{''A''}"
      "[(''j'', Some ''2'')]"]
    absent_operand_dispatch [OF u o(2) c, of bare_use_example
      "parse_configuration_r 1 bare_use_example" "''A''" "[]" None "{''A''}"
      "[(''k'', Some ''1'')]" 1]
  show ?thesis by simp
qed

text \<open>
  Claim C5, evaluated on the code. For a section that starts with the key \<^verbatim>\<open>use\<close>
  alone, the handler \<^verbatim>\<open>_handler_use\<close> does not return a status: the \<^verbatim>\<open>TypeError\<close> of
  the resolver reaches the caller of the resolution, and the key after it is never
  stored.
\<close>

theorem use_without_operand_raises:
  "parse_configuration 2 bare_use_example initial_state ''A''
   = Some (Inl (TypeError ''ERROR: a section name must not be None.''),
           \<lparr>loginfo = [], data = [], sections_checked = {''A''}\<rparr>)"
  by code_simp

text \<open>
  Claim C7, as the code has it. Take a key whose operation has no handler of its own, in
  the frame of any section (the root or a nested one) whose root is marked as checked,
  the key not being stored under the root yet. The iteration stores, under the name
  of the root, the key stripped of surrounding whitespace with the value turned into a
  string (\<^verbatim>\<open>None\<close> becomes the text \<^verbatim>\<open>None\<close>), stripped of whitespace and then of
  double quotes at both ends; the data under every other name stay as they were.
  And a whole resolution of a root, through all the sections it includes, changes the
  data of the view under the name of the root only.
\<close>

theorem generic_entry_stored_under_root:
  assumes "regex_op_matcher (strip k) = Some m"
    and "handler_lookup (get_op1_from_regex_match m) = None"
    and "root \<in> sections_checked st"
    and "case dict_get (data st) root of None \<Rightarrow> True | Some old \<Rightarrow> dict_get old (strip k) = None"
  shows "(\<exists>st'. process_entry e self_parse_r root section_name hdata (k, v) (st, p)
                  = Some (Inr (), st', p)
             \<and> (\<exists>opts. dict_get (data st') root = Some opts
                   \<and> dict_get opts (strip k) = Some (strip_chars [CHR 0x22] (strip (str v))))
             \<and> (\<forall>name. name \<noteq> root \<longrightarrow> dict_get (data st') name = dict_get (data st) name))
       \<and> (\<forall>fuel st0 r st1 name. parse_configuration fuel e st0 root = Some (r, st1)
             \<longrightarrow> name \<noteq> root \<longrightarrow> dict_get (data st1) name = dict_get (data st0) name)"
proof -
  from process_entry_generic [OF assms(1-3), of e self_parse_r section_name hdata v p] assms(4)
  have "\<exists>st'. process_entry e self_parse_r root section_name hdata (k, v) (st, p)
                  = Some (Inr (), st', p)
             \<and> (\<exists>opts. dict_get (data st') root = Some opts
                   \<and> dict_get opts (strip k) = Some (strip_chars [CHR 0x22] (strip (str v))))
             \<and> (\<forall>name. name \<noteq> root \<longrightarrow> dict_get (data st') name = dict_get (data st) name)"
    by (auto split: option.splits)
  moreover have "\<forall>fuel st0 r st1 name. parse_configuration fuel e st0 root = Some (r, st1)
             \<longrightarrow> name \<noteq> root \<longrightarrow> dict_get (data st1) name = dict_get (data st0) name"
    using parse_configuration_sound [of _ e]
    unfolding owner_sound_def same_elsewhere_def by blast
  ultimately show ?thesis by simp
qed

theorem generic_entry_stored_under_root_example:
  "(regex_op_matcher (strip ''k'') = Some \<lparr>grp0 = ''k'', grp2 = None, grp3 = None\<rparr>
      \<and> handler_lookup (get_op1_from_regex_match \<lparr>grp0 = ''k'', grp2 = None, grp3 = None\<rparr>)
          = None
      \<and> ''A'' \<in> sections_checked (initial_state\<lparr>sections_checked := {''A''}\<rparr>)
      \<and> (case dict_get (data (initial_state\<lparr>sections_checked := {''A''}\<rparr>)) ''A'' of
            None \<Rightarrow> True | Some old \<Rightarrow> dict_get old (strip ''k'') = None))
   \<and> (\<exists>st'. process_entry quoted_example (parse_configuration_r 0 quoted_example)
                  ''A'' ''B'' [] (''k'', Some [CHR 0x22, CHR ''v'', CHR 0x22])
                  (initial_state\<lparr>sections_checked := {''A''}\<rparr>, {''A'', ''B''})
                = Some (Inr (), st', {''A'', ''B''})
            \<and> (\<exists>opts. dict_get (data st') ''A'' = Some opts \<and> dict_get opts ''k'' = Some ''v'')
            \<and> dict_get (data st') ''B''
                = dict_get (data (initial_state\<lparr>sections_checked := {''A''}\<rparr>)) ''B'')
   \<and> parse_configuration 1 quoted_example initial_state ''A''
       = Some (Inr [], \<lparr>loginfo = [], data = [(''A'', [(''k'', ''v''), (''flag'', ''None'')])],
                         sections_checked = {''A''}\<rparr>)
   \<and> dict_get (data \<lparr>loginfo = [], data = [(''A'', [(''k'', ''v''), (''flag'', ''None'')])],
                         sections_checked = {''A''}\<rparr>) ''B''
       = dict_get (data initial_state) ''B''"
proof -
  let ?mk = "\<lparr>grp0 = ''k'', grp2 = None, grp3 = None\<rparr>"
  let ?st = "initial_state\<lparr>sections_checked := {''A''}\<rparr>"
  have k: "regex_op_matcher (strip ''k'') = Some ?mk"
    by code_simp
  have l: "handler_lookup (get_op1_from_regex_match ?mk) = None"
    by code_simp
  have c: "''A'' \<in> sections_checked ?st"
    by simp
  have d: "case dict_get (data ?st) ''A'' of
             None \<Rightarrow> True | Some old \<Rightarrow> dict_get old (strip ''k'') = None"
    by (simp add: initial_state_def dict_get_def)
  have s: "strip ''k'' = ''k''"
    "strip_chars [CHR 0x22] (strip (str (Some [CHR 0x22, CHR ''v'', CHR 0x22]))) = ''v''"
    by code_simp+
  have p: "parse_configuration 1 quoted_example initial_state ''A''
       = Some (Inr [], \<lparr>loginfo = [], data = [(''A'', [(''k'', ''v''), (''flag'', ''None'')])],
                         sections_checked = {''A''}\<rparr>)"
    by code_simp
  from k l c d p
    generic_entry_stored_under_root [OF k l c d, of quoted_example
      "parse_configuration_r 0 quoted_example" "''B''" "[]"
      "Some [CHR 0x22, CHR ''v'', CHR 0x22]" "{''A'', ''B''}"]
  show ?thesis
    unfolding s by (auto simp: initial_state_def dict_get_def)
qed

text \<open>
  Claim C7 as stated fails for a value in double quotes and for a key without a value:
  what is stored is not the raw value of the provider but \<^verbatim>\<open>v\<close> for \<^verbatim>\<open>"v"\<close>, and
  the text \<^verbatim>\<open>None\<close> for the absent value.
\<close>

theorem generic_entry_not_verbatim_counterexample:
  "dict_get (configdata quoted_example) ''A''
     = Some [(''k'', Some [CHR 0x22, CHR ''v'', CHR 0x22]), (''flag'', None)]
   \<and> map_option fst (get (parse_configuration 1 quoted_example) initial_state ''A'' ''k'')
       = Some (Inr ''v'')
   \<and> ''v'' \<noteq> [CHR 0x22, CHR ''v'', CHR 0x22]
   \<and> map_option fst (get (parse_configuration 1 quoted_example) initial_state ''A'' ''flag'')
       = Some (Inr ''None'')"
  by code_simp

section \<open>Termination of the resolution\<close>

lemma finite_reachable: "finite (reachable e root)"
proof -
  let ?targets = "\<lambda>items. (\<lambda>item. the (use_target item)) ` set items"
  let ?all = "insert root (\<Union>entry \<in> set (configdata e). ?targets (snd entry))"
  have "t \<in> ?all" if "t \<in> reachable e root" for t
    using that
  proof (induction rule: reachable.induct)
    case root
    show ?case by simp
  next
    case (step s items item t)
    from step.hyps(2) have "(s, items) \<in> set (configdata e)"
      by (simp add: dict_get_def map_of_SomeD)
    moreover from step.hyps(3,4) have "t \<in> ?targets items"
      by force
    ultimately show ?case by force
  qed
  then have "reachable e root \<subseteq> ?all" by blast
  moreover have "finite ?all" by simp
  ultimately show ?thesis by (rule finite_subset)
qed

lemma handler_use_returns:
  assumes ret: "self_parse_r op2 (Some hdata) (Some p) (Some root)
                  (loginfo_add e st (Handler_entry ''_handler_use'')) \<noteq> None"
  shows "handler_use e self_parse_r root section_name op1 op2 hdata entry (st, p) \<noteq> None"
proof (cases "case op2 of None \<Rightarrow> True | Some target \<Rightarrow> target \<notin> p")
  case True
  from ret show ?thesis
    unfolding handler_use_recurse [OF True]
    by (auto split: option.splits sum.splits prod.splits)
next
  case False
  then obtain target where "op2 = Some target" "target \<in> p"
    by (cases op2) auto
  then show ?thesis
    by (simp add: handler_use_cycle Let_def)
qed

lemma process_entry_returns:
  assumes ret: "\<And>sn st'. (\<forall>t. sn = Some t \<longrightarrow> t \<in> R \<and> t \<notin> p) \<Longrightarrow> root \<in> sections_checked st'
                  \<Longrightarrow> self_parse_r sn (Some hdata) (Some p) (Some root) st' \<noteq> None"
    and tgt: "\<forall>t. use_target item = Some t \<longrightarrow> t \<in> R"
    and chk: "root \<in> sections_checked st"
  shows "process_entry e self_parse_r root section_name hdata item (st, p) \<noteq> None"
proof (cases "regex_op_matcher (strip (fst item))")
  case None
  then show ?thesis by (simp add: process_entry_def Let_def)
next
  case (Some m)
  let ?op1 = "get_op1_from_regex_match m" and ?op2 = "get_op2_from_regex_match m"
  let ?sec_k = "strip (fst item)" and ?sec_v = "strip_chars [CHR 0x22] (strip (str (snd item)))"
  let ?st2 = "loginfo_add e (loginfo_add e st (Section_key_value ?sec_k ?sec_v))
                (Section_operands ?op1 ?op2)"
  have chk2: "root \<in> sections_checked ?st2"
    using chk by (simp add: loginfo_add_fields)
  from handler_generic_checked [OF chk2, of e self_parse_r section_name ?op1 ?op2 hdata ?sec_k ?sec_v p]
  obtain st' where
    g: "handler_generic e self_parse_r root section_name ?op1 ?op2 hdata (?sec_k, ?sec_v) (?st2, p)
          = Some (Inr None, st', p)"
    by blast
  show ?thesis
  proof (cases "handler_lookup ?op1")
    case None
    with Some g show ?thesis by (simp add: process_entry_def Let_def)
  next
    case h: (Some h)
    show ?thesis
    proof (cases h)
      case H_generic
      with h Some g show ?thesis
        by (simp add: process_entry_def Let_def exception_control_event_def)
    next
      case H_use
      with h Some have "use_target item = ?op2"
        by (simp add: use_target_def)
      with tgt have t: "\<forall>t. ?op2 = Some t \<longrightarrow> t \<in> R"
        by simp
      let ?st3 = "loginfo_add e ?st2 (Handler_entry ''_handler_use'')"
      have u: "handler_use e self_parse_r root section_name ?op1 ?op2 hdata (?sec_k, ?sec_v) (?st2, p)
                 \<noteq> None"
      proof (cases "case ?op2 of None \<Rightarrow> True | Some target \<Rightarrow> target \<notin> p")
        case True
        with t have "\<forall>t. ?op2 = Some t \<longrightarrow> t \<in> R \<and> t \<notin> p"
          by (auto split: option.splits)
        moreover have "root \<in> sections_checked ?st3"
          using chk by (simp add: loginfo_add_fields)
        ultimately have "self_parse_r ?op2 (Some hdata) (Some p) (Some root) ?st3 \<noteq> None"
          by (rule ret)
        then show ?thesis by (rule handler_use_returns)
      next
        case False
        then obtain target where "?op2 = Some target" "target \<in> p"
          by (cases ?op2) auto
        then show ?thesis
          by (simp add: handler_use_cycle Let_def)
      qed
      then obtain res where
        "handler_use e self_parse_r root section_name ?op1 ?op2 hdata (?sec_k, ?sec_v) (?st2, p)
           = Some res"
        by blast
      with H_use h Some show ?thesis
        by (cases res)
          (auto simp: process_entry_def Let_def exception_control_event_def split: sum.splits)
    qed
  qed
qed

lemma process_items_returns:
  assumes sound: "parse_r_sound self_parse_r"
    and ret: "\<And>sn st'. (\<forall>t. sn = Some t \<longrightarrow> t \<in> R \<and> t \<notin> p) \<Longrightarrow> root \<in> sections_checked st'
                  \<Longrightarrow> self_parse_r sn (Some hdata) (Some p) (Some root) st' \<noteq> None"
  shows "list_all (\<lambda>item. \<forall>t. use_target item = Some t \<longrightarrow> t \<in> R) items
     \<Longrightarrow> root \<in> sections_checked st
     \<Longrightarrow> process_items e self_parse_r root section_name hdata items (st, p) \<noteq> None"
proof (induction items arbitrary: st)
  case Nil
  show ?case by simp
next
  case (Cons item items)
  from Cons.prems have tgt: "\<forall>t. use_target item = Some t \<longrightarrow> t \<in> R"
    and rest: "list_all (\<lambda>item. \<forall>t. use_target item = Some t \<longrightarrow> t \<in> R) items"
    by simp_all
  have "process_entry e self_parse_r root section_name hdata item (st, p) \<noteq> None"
  proof (rule process_entry_returns [where R = R])
    show "self_parse_r sn (Some hdata) (Some p) (Some root) st' \<noteq> None"
      if "\<forall>t. sn = Some t \<longrightarrow> t \<in> R \<and> t \<notin> p" and "root \<in> sections_checked st'" for sn st'
      using that by (rule ret)
    show "\<forall>t. use_target item = Some t \<longrightarrow> t \<in> R" by (rule tgt)
    show "root \<in> sections_checked st" by (rule Cons.prems(2))
  qed
  then obtain r1 st1 p1 where
    e1: "process_entry e self_parse_r root section_name hdata item (st, p) = Some (r1, st1, p1)"
    by (metis not_None_eq prod_cases3)
  show ?case
  proof (cases r1)
    case (Inl err)
    with e1 show ?thesis by simp
  next
    case (Inr u)
    from process_entry_sound [OF sound e1] Inr
    have "same_elsewhere root st st1" and "p1 = p"
      by simp_all
    with Cons.prems(2) have "root \<in> sections_checked st1"
      by (auto simp: same_elsewhere_def)
    from Cons.IH [OF rest this] e1 Inr \<open>p1 = p\<close> show ?thesis
      by simp
  qed
qed

lemma parse_configuration_r_returns:
  "card (reachable e root0 - (case ps of None \<Rightarrow> {} | Some p \<Rightarrow> p)) \<le> n
   \<Longrightarrow> \<forall>t. sn = Some t \<longrightarrow> t \<in> reachable e root0 \<and> t \<notin> (case ps of None \<Rightarrow> {} | Some p \<Rightarrow> p)
   \<Longrightarrow> \<forall>r. sr = Some r \<longrightarrow> r \<in> sections_checked st
   \<Longrightarrow> parse_configuration_r n e sn hdt ps sr st \<noteq> None"
proof (induction n arbitrary: sn hdt ps sr st)
  case 0
  let ?p0 = "case ps of None \<Rightarrow> {} | Some p \<Rightarrow> p"
  show ?case
  proof (cases sn)
    case None
    then show ?thesis by (simp add: Let_def)
  next
    case (Some t)
    with "0.prems"(2) have "t \<in> reachable e root0 - ?p0" by simp
    moreover have "finite (reachable e root0 - ?p0)"
      by (simp add: finite_reachable)
    ultimately have "card (reachable e root0 - ?p0) \<noteq> 0"
      by auto
    with "0.prems"(1) show ?thesis by simp
  qed
next
  case (Suc n)
  let ?R = "reachable e root0"
  let ?p0 = "case ps of None \<Rightarrow> {} | Some p \<Rightarrow> p"
  show ?case
  proof (cases sn)
    case None
    then show ?thesis by (simp add: Let_def)
  next
    case (Some t)
    with Suc.prems(2) have tR: "t \<in> ?R" and tp: "t \<notin> ?p0" by simp_all
    show ?thesis
    proof (cases "dict_get (configdata e) t")
      case None
      with Some show ?thesis by (simp add: Let_def)
    next
      case items: (Some items)
      let ?root = "case sr of None \<Rightarrow> t | Some r \<Rightarrow> r"
      let ?st1 = "loginfo_add e st (Section_entry t)"
      let ?st2 = "case sr of
                    None \<Rightarrow> ?st1\<lparr>sections_checked := insert t (sections_checked ?st1)\<rparr>
                  | Some r \<Rightarrow> ?st1"
      let ?hdt = "case hdt of None \<Rightarrow> parser_data_init | Some d \<Rightarrow> d"
      let ?p1 = "insert t ?p0"
      have fin: "finite (?R - ?p0)"
        by (simp add: finite_reachable)
      have "?R - ?p1 = (?R - ?p0) - {t}" by auto
      then have "card (?R - ?p1) = card (?R - ?p0) - 1"
        using tR tp fin by simp
      with Suc.prems(1) have card1: "card (?R - ?p1) \<le> n" by simp
      have chk: "?root \<in> sections_checked ?st2"
        using Suc.prems(3) by (auto simp: loginfo_add_fields split: option.splits)
      have tgts: "list_all (\<lambda>item. \<forall>t'. use_target item = Some t' \<longrightarrow> t' \<in> ?R) items"
        unfolding list_all_iff
        using reachable.step [OF tR items] by blast
      have "process_items e (parse_configuration_r n e) ?root t ?hdt items (?st2, ?p1) \<noteq> None"
      proof (rule process_items_returns [where R = ?R])
        show "parse_r_sound (parse_configuration_r n e)"
          by (rule parse_configuration_r_sound)
        show "parse_configuration_r n e sn' (Some ?hdt) (Some ?p1) (Some ?root) st' \<noteq> None"
          if "\<forall>t'. sn' = Some t' \<longrightarrow> t' \<in> ?R \<and> t' \<notin> ?p1" and "?root \<in> sections_checked st'"
          for sn' st'
          using card1 that by (intro Suc.IH) simp_all
        show "list_all (\<lambda>item. \<forall>t'. use_target item = Some t' \<longrightarrow> t' \<in> ?R) items"
          by (rule tgts)
        show "?root \<in> sections_checked ?st2" by (rule chk)
      qed
      then obtain r3 ctx3 where
        "process_items e (parse_configuration_r n e) ?root t ?hdt items (?st2, ?p1) = Some (r3, ctx3)"
        by (metis not_None_eq surj_pair)
      with Some items show ?thesis
        by (cases r3; cases ctx3) (simp_all add: Let_def)
    qed
  qed
qed

text \<open>
  Claim C6. A top-level resolution returns, with a value or an exception, on every
  configuration, cyclic or not, as soon as its budget of sections in flight is the
  number of section names reachable from the root along \<^verbatim>\<open>use\<close> edges: the nesting
  of section walks never needs to be deeper than that. And a \<^verbatim>\<open>use\<close> whose target is
  in flight does not enter the resolver: what the handler does is the same for every
  resolver it is given.
\<close>

theorem resolution_terminates:
  assumes "card (reachable e root) \<le> fuel"
  shows "(\<exists>r. parse_configuration fuel e st root = Some r)
       \<and> (\<forall>target p self_parse_r self_parse_r' section_root section_name op1 hdata entry st'.
             target \<in> p \<longrightarrow>
               handler_use e self_parse_r section_root section_name op1 (Some target) hdata entry (st', p)
               = handler_use e self_parse_r' section_root section_name op1 (Some target) hdata entry (st', p))"
proof -
  have "parse_configuration fuel e st root \<noteq> None"
  proof (cases "root = []")
    case True
    then show ?thesis
      by (simp add: parse_configuration_def parse_configuration_top_def)
  next
    case False
    have "parse_configuration_r fuel e (Some root) None None None (st\<lparr>loginfo := []\<rparr>) \<noteq> None"
      using assms by (intro parse_configuration_r_returns [where ?root0.0 = root])
        (simp_all add: reachable.root)
    with False show ?thesis
      by (auto simp: parse_configuration_def parse_configuration_top_def split: option.splits)
  qed
  then show ?thesis
    by (auto simp: handler_use_cycle)
qed

lemma cycle_use_targets:
  "use_target (''a'', Some ''1'') = None"
  "use_target (''use B'', None) = Some ''B''"
  "use_target (''c'', Some ''3'') = None"
  "use_target (''b'', Some ''2'') = None"
  "use_target (''use A'', None) = Some ''A''"
  by code_simp+

lemma reachable_cycle_example: "reachable cycle_example ''A'' \<subseteq> {''A'', ''B''}"
proof
  fix t
  assume "t \<in> reachable cycle_example ''A''"
  then show "t \<in> {''A'', ''B''}"
  proof (induction rule: reachable.induct)
    case root
    show ?case by simp
  next
    case (step s items item t)
    then show ?case
      by (auto simp: cycle_example_def cycle_config_def dict_get_def cycle_use_targets
               split: if_splits)
  qed
qed

theorem resolution_terminates_example:
  "card (reachable cycle_example ''A'') \<le> 2
   \<and> (\<exists>r. parse_configuration 2 cycle_example initial_state ''A'' = Some r)
   \<and> ''A'' \<in> {''A'', ''B''}
   \<and> handler_use cycle_example (parse_configuration_r 1 cycle_example) ''A'' ''B'' ''use''
         (Some ''A'') [] (''use A'', ''None'') (initial_state, {''A'', ''B''})
       = handler_use cycle_example (\<lambda>sn hdt ps sr st. None) ''A'' ''B'' ''use''
         (Some ''A'') [] (''use A'', ''None'') (initial_state, {''A'', ''B''})"
proof -
  have "card (reachable cycle_example ''A'') \<le> card {''A'', ''B''}"
    by (rule card_mono [OF _ reachable_cycle_example]) simp
  then have c: "card (reachable cycle_example ''A'') \<le> 2"
    by simp
  from c resolution_terminates [OF c, of initial_state] show ?thesis
    by blast
qed

end
